theory Spec2Isabelle
  imports Complex_Main "HOL-Library.Multiset"
begin

chapter \<open>The model\<close>

section \<open>Data model\<close>

text \<open>
  Modelled from the spec: the file \<^verbatim>\<open>types.ts\<close> that declares \<^verbatim>\<open>Species\<close>,
  \<^verbatim>\<open>Sighting\<close> and \<^verbatim>\<open>Session\<close> is not part of the sources at hand; the records below
  take their fields from section 3 of the specification and from the way
  \<^verbatim>\<open>SessionView\<close> and \<^verbatim>\<open>App.tsx\<close> read and write them. Record fields carry a
  prefix (\<open>sp_\<close>, \<open>sg_\<close>, \<open>se_\<close>, \<open>d_\<close>) because the three interfaces share the
  names \<^verbatim>\<open>id\<close>, \<^verbatim>\<open>name\<close>, \<^verbatim>\<open>status\<close>, \<^verbatim>\<open>latitude\<close> and \<^verbatim>\<open>longitude\<close>.

  JavaScript numbers that hold counts are integers here (\<^typ>\<open>int\<close>); a timestamp
  is the instant its ISO-8601 string denotes, in milliseconds since the epoch;
  the categorical codes (\<^verbatim>\<open>Direction\<close>, \<^verbatim>\<open>Age\<close>, ...) are strings, as they are at
  run time. An optional property is an \<^typ>\<open>'a option\<close>, \<^term>\<open>None\<close> when absent.
\<close>

record species =
  sp_id :: string
  sp_name :: string
  sp_abbreviation :: string
  sp_family :: "string option"

record sighting =
  sg_id :: string
  sg_speciesId :: string
  sg_timestamp :: int
  sg_count :: int
  sg_latitude :: "real option"
  sg_longitude :: "real option"
  sg_direction :: "string option"
  sg_age :: "string option"
  sg_sex :: "string option"
  sg_morph :: "string option"
  sg_distance :: "string option"
  sg_status :: "string option"
  sg_countType :: "string option"
  sg_comment :: "string option"

datatype session_type = Trip | Counting

datatype session_status = Active | Completed

datatype sync_status = Unsynced | Synced | SyncError

record weather =
  temperature :: string
  cloudCover :: string
  windSpeed :: string
  precipitation :: string

record session =
  se_id :: string
  se_type :: session_type
  se_name :: string
  se_date :: string
  se_startTime :: string
  se_endTime :: "string option"
  se_observers :: string
  se_notes :: string
  se_latitude :: "real option"
  se_longitude :: "real option"
  se_weather :: weather
  se_sightings :: "sighting list"
  se_status :: session_status
  se_syncStatus :: sync_status
  se_remoteId :: "string option"

text \<open>
  The argument of \<^verbatim>\<open>addSighting\<close> has type
  \<^verbatim>\<open>Partial<Sighting> & { speciesId: string, count: number }\<close>: every property of a
  sighting may be present, the species and the count must be.
\<close>

record sighting_data =
  d_id :: "string option"
  d_speciesId :: string
  d_timestamp :: "int option"
  d_count :: int
  d_latitude :: "real option"
  d_longitude :: "real option"
  d_direction :: "string option"
  d_age :: "string option"
  d_sex :: "string option"
  d_morph :: "string option"
  d_distance :: "string option"
  d_status :: "string option"
  d_countType :: "string option"
  d_comment :: "string option"

text \<open>
  What a handler reads from the browser when it runs: the clock behind
  \<^verbatim>\<open>new Date()\<close>, the clock behind \<^verbatim>\<open>Date.now()\<close> (a later read of the same clock),
  and the characters \<^verbatim>\<open>Math.random().toString().slice(2, 5)\<close>.
\<close>

record env =
  clock_iso :: int
  clock_now :: nat
  random_digits :: string

section \<open>Handlers of the session view\<close>

text \<open>
  A handler of \<^verbatim>\<open>SessionView\<close> ends in one of three ways: it raises an alert and
  returns (\<open>Inl\<close>), it returns without calling \<^verbatim>\<open>onUpdateSession\<close> (\<open>Inr None\<close>), or
  it calls \<^verbatim>\<open>onUpdateSession\<close> with a new session (\<open>Inr (Some s)\<close>).
\<close>

datatype error = Alert string

type_synonym outcome = "error + session option"

text \<open>
  \<^verbatim>\<open>onUpdateSession\<close> replaces the session of the same id in the collection of
  \<^verbatim>\<open>App.tsx\<close>; every handler below builds its argument as \<^verbatim>\<open>{...session, ...}\<close>, so
  the session the view sees next is the argument of the call, and the old one
  when there was no call.
\<close>

fun session_after :: "session \<Rightarrow> outcome \<Rightarrow> session" where
  "session_after s (Inl e) = s"
| "session_after s (Inr None) = s"
| "session_after s (Inr (Some s')) = s'"

text \<open>\<^verbatim>\<open>Number.prototype.toString()\<close> on a non-negative integer: its decimal digits.\<close>

definition digit_char :: "nat \<Rightarrow> char" where
  "digit_char d = ''0123456789'' ! d"

fun toString :: "nat \<Rightarrow> string" where
  "toString n = (if n < 10 then [digit_char n] else toString (n div 10) @ [digit_char (n mod 10)])"

declare toString.simps [simp del]

definition isCompleted :: "session \<Rightarrow> bool" where
  "isCompleted session = (se_status session = Completed)"

text \<open>
  \<^verbatim>\<open>session.sightings.filter(s => s.speciesId === id).reduce((acc, curr) => acc + curr.count, 0)\<close>
\<close>

definition getCountForSpecies :: "session \<Rightarrow> string \<Rightarrow> int" where
  "getCountForSpecies session i =
     foldl (\<lambda>acc curr. acc + sg_count curr) 0
       (filter (\<lambda>s. sg_speciesId s = i) (se_sightings session))"

text \<open>
  The object literal of \<^verbatim>\<open>addSighting\<close> lists \<^verbatim>\<open>id\<close>, \<^verbatim>\<open>timestamp\<close>, \<^verbatim>\<open>latitude\<close>
  and \<^verbatim>\<open>longitude\<close> first and spreads \<^verbatim>\<open>...data\<close> last, so a property present in
  \<^verbatim>\<open>data\<close> wins over the generated one.
\<close>

definition generated_id :: "env \<Rightarrow> string" where
  "generated_id e = toString (clock_now e) @ random_digits e"

definition newSighting :: "env \<Rightarrow> session \<Rightarrow> sighting_data \<Rightarrow> sighting" where
  "newSighting e session data =
     \<lparr> sg_id = (case d_id data of Some i \<Rightarrow> i | None \<Rightarrow> generated_id e),
       sg_speciesId = d_speciesId data,
       sg_timestamp = (case d_timestamp data of Some t \<Rightarrow> t | None \<Rightarrow> clock_iso e),
       sg_count = d_count data,
       sg_latitude = (case d_latitude data of Some x \<Rightarrow> Some x | None \<Rightarrow> se_latitude session),
       sg_longitude = (case d_longitude data of Some x \<Rightarrow> Some x | None \<Rightarrow> se_longitude session),
       sg_direction = d_direction data,
       sg_age = d_age data,
       sg_sex = d_sex data,
       sg_morph = d_morph data,
       sg_distance = d_distance data,
       sg_status = d_status data,
       sg_countType = d_countType data,
       sg_comment = d_comment data \<rparr>"

definition addSighting :: "env \<Rightarrow> session \<Rightarrow> sighting_data \<Rightarrow> outcome" where
  "addSighting e session data =
     (if isCompleted session then Inl (Alert ''Session is finished. Re-open to add counts.'')
      else Inr (Some (session\<lparr> se_sightings := se_sightings session @ [newSighting e session data] \<rparr>)))"

text \<open>
  A sequence of \<^verbatim>\<open>addSighting\<close> calls, each with the environment it ran in; the
  view is rendered again between two calls, so each call sees the session the
  previous one left.
\<close>

fun append_calls :: "session \<Rightarrow> (env \<times> sighting_data) list \<Rightarrow> session" where
  "append_calls s [] = s"
| "append_calls s ((e, data) # calls) = append_calls (session_after s (addSighting e s data)) calls"

text \<open>The sum of the counts of the entries of a list that name a species.\<close>

definition count_sum :: "string \<Rightarrow> sighting list \<Rightarrow> int" where
  "count_sum i xs = sum_list (map sg_count (filter (\<lambda>s. sg_speciesId s = i) xs))"

definition data_sum :: "string \<Rightarrow> sighting_data list \<Rightarrow> int" where
  "data_sum i ds = sum_list (map d_count (filter (\<lambda>d. d_speciesId d = i) ds))"

text \<open>
  \<^verbatim>\<open>handleSimpleIncrement\<close>: the trip-mode buttons call it with \<^verbatim>\<open>amount\<close> 1 (a tap
  on the card, the plus button) and -1 (the minus button).
\<close>

definition simple_data :: "string \<Rightarrow> int \<Rightarrow> sighting_data" where
  "simple_data speciesId amount =
     \<lparr> d_id = None, d_speciesId = speciesId, d_timestamp = None, d_count = amount,
       d_latitude = None, d_longitude = None, d_direction = None, d_age = None, d_sex = None,
       d_morph = None, d_distance = None, d_status = None, d_countType = None, d_comment = None \<rparr>"

definition handleSimpleIncrement :: "env \<Rightarrow> session \<Rightarrow> string \<Rightarrow> int \<Rightarrow> outcome" where
  "handleSimpleIncrement e session speciesId amount =
     (let current = getCountForSpecies session speciesId
      in if amount < 0 \<and> current \<le> 0 then Inr None
         else addSighting e session (simple_data speciesId amount))"

fun increment_calls :: "session \<Rightarrow> (env \<times> string \<times> int) list \<Rightarrow> session" where
  "increment_calls s [] = s"
| "increment_calls s ((e, speciesId, amount) # calls) =
     increment_calls (session_after s (handleSimpleIncrement e s speciesId amount)) calls"

text \<open>
  \<^verbatim>\<open>handleRecordDelete\<close>; \<open>confirmed\<close> is the answer to the \<^verbatim>\<open>confirm\<close> dialog.
\<close>

definition handleRecordDelete :: "bool \<Rightarrow> session \<Rightarrow> string \<Rightarrow> outcome" where
  "handleRecordDelete confirmed session i =
     (if confirmed
      then Inr (Some (session\<lparr> se_sightings := filter (\<lambda>s. sg_id s \<noteq> i) (se_sightings session) \<rparr>))
      else Inr None)"

text \<open>
  \<^verbatim>\<open>handleToggleFinish\<close>; \<open>now\<close> is the string \<^verbatim>\<open>toLocaleTimeString\<close> returns for the
  current time. The button \<^verbatim>\<open>Resume Counting\<close> of the report view calls
  \<^verbatim>\<open>onUpdateSession({ ...session, status: 'active' })\<close>.
\<close>

definition handleToggleFinish :: "bool \<Rightarrow> string \<Rightarrow> session \<Rightarrow> outcome" where
  "handleToggleFinish confirmed now session =
     (if confirmed then Inr (Some (session\<lparr> se_status := Completed, se_endTime := Some now \<rparr>))
      else Inr None)"

definition resumeCounting :: "session \<Rightarrow> outcome" where
  "resumeCounting session = Inr (Some (session\<lparr> se_status := Active \<rparr>))"

subsection \<open>Editing a record\<close>

text \<open>
  \<^verbatim>\<open>Date\<close> arithmetic on a timestamp, in milliseconds. The time zone of the browser
  is a parameter: \<open>offsetAt\<close> is the offset of local time from UTC in force at an
  instant (\<^verbatim>\<open>LocalTZA(t, true)\<close> of the language specification), \<open>offsetOfLocal\<close> the
  offset the zone assigns to a local time value (\<^verbatim>\<open>LocalTZA(t, false)\<close>), which is
  how a clock change enters. \<^verbatim>\<open>LocalTime(t) = t + LocalTZA(t, true)\<close> and
  \<^verbatim>\<open>UTC(t) = t - LocalTZA(t, false)\<close>.

  \<^verbatim>\<open>setHours(h)\<close> takes the local time of the date, keeps its day, minutes, seconds and
  milliseconds, replaces the hour and converts back with \<^verbatim>\<open>UTC\<close>; \<^verbatim>\<open>setMinutes(m)\<close>
  keeps the local day, hour, seconds and milliseconds.
\<close>

record zone =
  offsetAt :: "int \<Rightarrow> int"
  offsetOfLocal :: "int \<Rightarrow> int"

definition msPerMinute :: int where "msPerMinute = 60000"
definition msPerHour :: int where "msPerHour = 3600000"
definition msPerDay :: int where "msPerDay = 86400000"

definition LocalTime :: "zone \<Rightarrow> int \<Rightarrow> int" where
  "LocalTime z t = t + offsetAt z t"

definition UTC :: "zone \<Rightarrow> int \<Rightarrow> int" where
  "UTC z l = l - offsetOfLocal z l"

definition withHours :: "int \<Rightarrow> int \<Rightarrow> int" where
  "withHours h l = (l div msPerDay) * msPerDay + h * msPerHour + l mod msPerHour"

definition withMinutes :: "int \<Rightarrow> int \<Rightarrow> int" where
  "withMinutes m l = (l div msPerHour) * msPerHour + m * msPerMinute + l mod msPerMinute"

definition setHours :: "zone \<Rightarrow> int \<Rightarrow> int \<Rightarrow> int" where
  "setHours z h t = UTC z (withHours h (LocalTime z t))"

definition setMinutes :: "zone \<Rightarrow> int \<Rightarrow> int \<Rightarrow> int" where
  "setMinutes z m t = UTC z (withMinutes m (LocalTime z t))"






definition fixed_zone :: "int \<Rightarrow> zone" where
  "fixed_zone off = \<lparr> offsetAt = (\<lambda>t. off), offsetOfLocal = (\<lambda>l. off) \<rparr>"


text \<open>
  \<^verbatim>\<open>str.split(':')\<close>, and \<^verbatim>\<open>Number\<close> on the pieces. \<^verbatim>\<open>Number\<close> of a string of decimal
  digits is its value and \<^verbatim>\<open>Number('')\<close> is 0; every other string counts as
  \<^verbatim>\<open>NaN\<close> (\<^term>\<open>None\<close>) here. The edited string is the value of an
  \<^verbatim>\<open><input type="time">\<close>, which is empty or of the form \<^verbatim>\<open>HH:MM\<close>, so signs,
  fractions, exponents and blanks do not occur.
\<close>

fun split_colon :: "string \<Rightarrow> string list" where
  "split_colon [] = [[]]"
| "split_colon (c # cs) =
     (if c = CHR '':'' then [] # split_colon cs
      else (case split_colon cs of [] \<Rightarrow> [[c]] | p # ps \<Rightarrow> (c # p) # ps))"

definition is_digit :: "char \<Rightarrow> bool" where
  "is_digit c = ((48::nat) \<le> of_char c \<and> of_char c \<le> (57::nat))"

definition digits_value :: "string \<Rightarrow> nat" where
  "digits_value s = foldl (\<lambda>acc c. 10 * acc + (of_char c - 48)) 0 s"

definition Number_str :: "string \<Rightarrow> int option" where
  "Number_str s = (if list_all is_digit s then Some (int (digits_value s)) else None)"

record edit_state =
  editingSighting :: "sighting option"
  editTimeStr :: string


text \<open>
  The controls of the edit form. Each replaces \<^verbatim>\<open>editingSighting\<close> by a copy with
  one field changed; the time field replaces \<^verbatim>\<open>editTimeStr\<close>. \<open>CountInput\<close> carries
  the result of \<^verbatim>\<open>parseInt\<close> (\<^term>\<open>None\<close> for \<^verbatim>\<open>NaN\<close>), and \<^verbatim>\<open>parseInt(v) || 1\<close> turns
  \<^verbatim>\<open>NaN\<close> and 0 into 1.
\<close>

datatype form_action =
    CountMinus | CountPlus | CountInput "int option"
  | SetDirection string | SetAge string | SetSex string | SetMorph string | SetDistance string
  | SetComment string | SetTime string

fun form_sighting :: "form_action \<Rightarrow> sighting \<Rightarrow> sighting" where
  "form_sighting CountMinus es = es\<lparr> sg_count := max 1 (sg_count es - 1) \<rparr>"
| "form_sighting CountPlus es = es\<lparr> sg_count := sg_count es + 1 \<rparr>"
| "form_sighting (CountInput v) es =
     es\<lparr> sg_count := (case v of None \<Rightarrow> 1 | Some n \<Rightarrow> if n = 0 then 1 else n) \<rparr>"
| "form_sighting (SetDirection d) es = es\<lparr> sg_direction := Some d \<rparr>"
| "form_sighting (SetAge a) es = es\<lparr> sg_age := Some a \<rparr>"
| "form_sighting (SetSex x) es = es\<lparr> sg_sex := Some x \<rparr>"
| "form_sighting (SetMorph m) es = es\<lparr> sg_morph := Some m \<rparr>"
| "form_sighting (SetDistance d) es = es\<lparr> sg_distance := Some d \<rparr>"
| "form_sighting (SetComment c) es = es\<lparr> sg_comment := Some c \<rparr>"
| "form_sighting (SetTime t) es = es"


definition updatedTimestamp :: "zone \<Rightarrow> sighting \<Rightarrow> string \<Rightarrow> int" where
  "updatedTimestamp z es timeStr =
     (if timeStr \<noteq> [] then
        (case map Number_str (split_colon timeStr) of
           Some h # Some m # rest \<Rightarrow> setMinutes z m (setHours z h (sg_timestamp es))
         | _ \<Rightarrow> sg_timestamp es)
      else sg_timestamp es)"

definition handleSaveEdit :: "zone \<Rightarrow> session \<Rightarrow> edit_state \<Rightarrow> outcome" where
  "handleSaveEdit z session st =
     (case editingSighting st of
        None \<Rightarrow> Inr None
      | Some es \<Rightarrow>
          Inr (Some (session\<lparr> se_sightings :=
            map (\<lambda>s. if sg_id s = sg_id es
                      then es\<lparr> sg_timestamp := updatedTimestamp z es (editTimeStr st) \<rparr>
                      else s)
                (se_sightings session) \<rparr>)))"

subsection \<open>The rendered view\<close>

text \<open>
  The controls of \<^verbatim>\<open>SessionView\<close> whose handlers can call \<^verbatim>\<open>onUpdateSession\<close>, and
  where the markup puts them. For a completed session the component returns
  \<^verbatim>\<open>renderReportUI()\<close> alone (\<^verbatim>\<open>if (isCompleted) return renderReportUI()\<close>); of these
  controls the report has only \<^verbatim>\<open>Resume Counting\<close>. Otherwise it returns the counting
  view with the edit form and the records list over it:
  \<^item> the \<^verbatim>\<open>Finish\<close> button calls \<^verbatim>\<open>handleToggleFinish\<close>;
  \<^item> a tap on a species card calls \<^verbatim>\<open>handleMigrationSelect\<close> in a counting session
    (which selects the species and leaves the session alone) and
    \<^verbatim>\<open>handleSimpleIncrement(sp.id, 1)\<close> in a trip session;
  \<^item> the minus and plus buttons of a card are there in a trip session for a species
    with a positive total, and call \<^verbatim>\<open>handleSimpleIncrement\<close> with -1 and 1;
  \<^item> \<^verbatim>\<open>Save Record\<close> of the detail panel of a counting session calls
    \<^verbatim>\<open>handleMigrationSave\<close>, which passes the selected species and the detail entry
    to \<^verbatim>\<open>addSighting\<close>;
  \<^item> \<^verbatim>\<open>Save Changes\<close> of the edit form calls \<^verbatim>\<open>handleSaveEdit\<close>;
  \<^item> the delete button of a row of the records list calls \<^verbatim>\<open>handleRecordDelete\<close> with
    the id of that row's record.
  An event on a control that is not rendered calls nothing.
\<close>

datatype ui_event =
    ResumeCounting
  | Finish bool string
  | TapCard string
  | MinusButton string
  | PlusButton string
  | SaveRecord sighting_data
  | SaveChanges edit_state
  | DeleteRecord bool string

definition SessionView_event :: "env \<Rightarrow> zone \<Rightarrow> session \<Rightarrow> ui_event \<Rightarrow> outcome" where
  "SessionView_event e z session ev =
     (if isCompleted session then
        (case ev of ResumeCounting \<Rightarrow> resumeCounting session | _ \<Rightarrow> Inr None)
      else
        (case ev of
           ResumeCounting \<Rightarrow> Inr None
         | Finish confirmed now \<Rightarrow> handleToggleFinish confirmed now session
         | TapCard sp \<Rightarrow>
             if se_type session = Counting then Inr None
             else handleSimpleIncrement e session sp 1
         | MinusButton sp \<Rightarrow>
             if se_type session = Trip \<and> 0 < getCountForSpecies session sp
             then handleSimpleIncrement e session sp (- 1) else Inr None
         | PlusButton sp \<Rightarrow>
             if se_type session = Trip \<and> 0 < getCountForSpecies session sp
             then handleSimpleIncrement e session sp 1 else Inr None
         | SaveRecord data \<Rightarrow>
             if se_type session = Counting then addSighting e session data else Inr None
         | SaveChanges st \<Rightarrow> handleSaveEdit z session st
         | DeleteRecord confirmed i \<Rightarrow>
             if i \<in> set (map sg_id (se_sightings session))
             then handleRecordDelete confirmed session i else Inr None))"

section \<open>JavaScript library functions used by the views\<close>

text \<open>
  \<^verbatim>\<open>Array.prototype.sort(compare)\<close>. The sort is stable, and for a consistent
  comparator the language fixes the result: the elements in ascending order of the
  comparator, equal ones in their original order. Insertion from the right, each
  element placed before the first one it does not follow, computes that list. The
  comparators of this program return a number, read by its sign.
\<close>

fun insert_by :: "('a \<Rightarrow> 'a \<Rightarrow> int) \<Rightarrow> 'a \<Rightarrow> 'a list \<Rightarrow> 'a list" where
  "insert_by cmp x [] = [x]"
| "insert_by cmp x (y # ys) = (if cmp x y \<le> 0 then x # y # ys else y # insert_by cmp x ys)"

fun js_sort :: "('a \<Rightarrow> 'a \<Rightarrow> int) \<Rightarrow> 'a list \<Rightarrow> 'a list" where
  "js_sort cmp [] = []"
| "js_sort cmp (x # xs) = insert_by cmp x (js_sort cmp xs)"

text \<open>
  A comparator, read as \<open>cmp a b \<le> 0\<close> for "\<open>a\<close> does not follow \<open>b\<close>", is consistent
  on a set when it is total and transitive there.
\<close>

definition total_on_set :: "('a \<Rightarrow> 'a \<Rightarrow> int) \<Rightarrow> 'a set \<Rightarrow> bool" where
  "total_on_set cmp A = (\<forall>a \<in> A. \<forall>b \<in> A. cmp a b \<le> 0 \<or> cmp b a \<le> 0)"

definition trans_on_set :: "('a \<Rightarrow> 'a \<Rightarrow> int) \<Rightarrow> 'a set \<Rightarrow> bool" where
  "trans_on_set cmp A = (\<forall>a \<in> A. \<forall>b \<in> A. \<forall>c \<in> A. cmp a b \<le> 0 \<longrightarrow> cmp b c \<le> 0 \<longrightarrow> cmp a c \<le> 0)"

text \<open>\<^verbatim>\<open>String.prototype.includes\<close>: the argument occurs as a contiguous piece.\<close>

fun startsWith :: "string \<Rightarrow> string \<Rightarrow> bool" where
  "startsWith s [] = True"
| "startsWith [] (c # cs) = False"
| "startsWith (x # xs) (c # cs) = (x = c \<and> startsWith xs cs)"

fun includes_str :: "string \<Rightarrow> string \<Rightarrow> bool" where
  "includes_str [] t = (t = [])"
| "includes_str (x # xs) t = (startsWith (x # xs) t \<or> includes_str xs t)"

text \<open>
  A plain object used as a dictionary (\<^verbatim>\<open>Record<string, number>\<close>): its own
  properties in creation order. Reading a missing key gives \<^verbatim>\<open>undefined\<close>
  (\<^term>\<open>None\<close>); writing an existing key keeps its place, writing a new key adds
  it last. The keys are species ids. Reading a key that names a property of
  \<^verbatim>\<open>Object.prototype\<close> would find the inherited value instead of \<^verbatim>\<open>undefined\<close>; the
  model covers the other keys, and \<open>object_prototype_keys\<close> lists the names it
  leaves out.

  \<^verbatim>\<open>Object.entries\<close> lists the keys that are array indices (canonical decimal
  numerals below \<open>2\<^sup>3\<^sup>2 - 1\<close>) first, in ascending numeric order, and the other keys
  after them in creation order.
\<close>

type_synonym 'v js_object = "(string \<times> 'v) list"

definition object_prototype_keys :: "string list" where
  "object_prototype_keys =
     [''constructor'', ''__proto__'', ''hasOwnProperty'', ''isPrototypeOf'',
      ''propertyIsEnumerable'', ''toLocaleString'', ''toString'', ''valueOf'',
      ''__defineGetter__'', ''__defineSetter__'', ''__lookupGetter__'', ''__lookupSetter__'']"

definition obj_get :: "'v js_object \<Rightarrow> string \<Rightarrow> 'v option" where
  "obj_get obj k = map_of obj k"

fun obj_set :: "'v js_object \<Rightarrow> string \<Rightarrow> 'v \<Rightarrow> 'v js_object" where
  "obj_set [] k v = [(k, v)]"
| "obj_set ((k', v') # obj) k v = (if k' = k then (k, v) # obj else (k', v') # obj_set obj k v)"

definition is_array_index :: "string \<Rightarrow> bool" where
  "is_array_index k =
     (k \<noteq> [] \<and> list_all is_digit k \<and> (k = ''0'' \<or> hd k \<noteq> CHR ''0'')
      \<and> digits_value k < 4294967295)"

definition Object_entries :: "'v js_object \<Rightarrow> (string \<times> 'v) list" where
  "Object_entries obj =
     sort_key (\<lambda>(k, v). digits_value k) (filter (\<lambda>(k, v). is_array_index k) obj)
     @ filter (\<lambda>(k, v). \<not> is_array_index k) obj"

section \<open>Derived views\<close>

subsection \<open>The species grid\<close>

text \<open>
  \<^verbatim>\<open>filteredAndSortedSpecies\<close>. \<^verbatim>\<open>String.prototype.toLowerCase\<close> and
  \<^verbatim>\<open>String.prototype.localeCompare\<close> depend on the Unicode tables and on the locale of
  the browser; they are the parameters \<open>lower\<close> and \<open>localeCompare\<close>. \<^verbatim>\<open>speciesList\<close>
  may be missing (\<^verbatim>\<open>speciesList || []\<close>); an empty \<^verbatim>\<open>family\<close> is falsy.
\<close>

definition species_matches :: "(string \<Rightarrow> string) \<Rightarrow> string \<Rightarrow> species \<Rightarrow> bool" where
  "species_matches lower searchTerm s =
     (includes_str (lower (sp_name s)) (lower searchTerm)
      \<or> includes_str (lower (sp_abbreviation s)) (lower searchTerm)
      \<or> (case sp_family s of
            None \<Rightarrow> False
          | Some f \<Rightarrow> f \<noteq> [] \<and> includes_str (lower f) (lower searchTerm)))"

definition species_compare ::
  "(string \<Rightarrow> string \<Rightarrow> int) \<Rightarrow> session \<Rightarrow> species \<Rightarrow> species \<Rightarrow> int" where
  "species_compare localeCompare session a b =
     (let aCount = getCountForSpecies session (sp_id a);
          bCount = getCountForSpecies session (sp_id b)
      in if aCount > 0 \<and> bCount = 0 then - 1
         else if bCount > 0 \<and> aCount = 0 then 1
         else localeCompare (sp_name a) (sp_name b))"

definition filteredAndSortedSpecies ::
  "(string \<Rightarrow> string) \<Rightarrow> (string \<Rightarrow> string \<Rightarrow> int) \<Rightarrow> species list option \<Rightarrow> string \<Rightarrow> session
   \<Rightarrow> species list" where
  "filteredAndSortedSpecies lower localeCompare speciesList searchTerm session =
     (let safeList = (case speciesList of Some l \<Rightarrow> l | None \<Rightarrow> []);
          filtered = filter (species_matches lower searchTerm) safeList
      in js_sort (species_compare localeCompare session) filtered)"

subsection \<open>The report\<close>

text \<open>
  The three values \<^verbatim>\<open>renderReportUI\<close> computes before it builds the markup.
  \<^verbatim>\<open>new Set(xs).size\<close> is the number of distinct elements of \<open>xs\<close>;
  \<^verbatim>\<open>(speciesCounts[id] || 0)\<close> reads 0 for a missing key; \<^verbatim>\<open>sp?.name || 'Unknown'\<close>
  gives the label for a species that is not found, and for one whose name is empty.
\<close>

record breakdown_item =
  bi_name :: string
  bi_count :: int
  bi_id :: string

record report =
  totalBirds :: int
  uniqueSpecies :: nat
  sortedSpecies :: "breakdown_item list"

definition speciesCounts :: "sighting list \<Rightarrow> int js_object" where
  "speciesCounts sightings =
     foldl (\<lambda>obj s. obj_set obj (sg_speciesId s)
                      ((case obj_get obj (sg_speciesId s) of None \<Rightarrow> 0 | Some c \<Rightarrow> c) + sg_count s))
           [] sightings"

definition species_label :: "species list \<Rightarrow> string \<Rightarrow> string" where
  "species_label speciesList i =
     (case find (\<lambda>s. sp_id s = i) speciesList of
        None \<Rightarrow> ''Unknown''
      | Some sp \<Rightarrow> if sp_name sp = [] then ''Unknown'' else sp_name sp)"

definition renderReportUI :: "session \<Rightarrow> species list \<Rightarrow> report" where
  "renderReportUI session speciesList =
     \<lparr> totalBirds = foldl (\<lambda>acc s. acc + sg_count s) 0 (se_sightings session),
       uniqueSpecies = length (remdups (map sg_speciesId (se_sightings session))),
       sortedSpecies =
         map (\<lambda>(i, c). \<lparr> bi_name = species_label speciesList i, bi_count = c, bi_id = i \<rparr>)
             (js_sort (\<lambda>(ka, a) (kb, b). b - a)
                      (Object_entries (speciesCounts (se_sightings session)))) \<rparr>"

section \<open>Handlers of the application shell\<close>

subsection \<open>Import of a session file\<close>










subsection \<open>Start of a session\<close>

text \<open>
  \<^verbatim>\<open>handleStartSession\<close> reads the form \<^verbatim>\<open>newSessionData\<close> and writes four pieces of
  the state of \<^verbatim>\<open>App\<close>. \<^verbatim>\<open>parseFloat\<close> is the parameter \<open>parseFloat\<close>.
\<close>

record new_session_data =
  n_name :: string
  n_date :: string
  n_startTime :: string
  n_observers :: string
  n_lat :: string
  n_lng :: string
  n_type :: session_type
  n_temp :: string
  n_cloud :: string
  n_wind :: string
  n_precip :: string

datatype view_state = Dashboard | NewSession | ActiveSession | SettingsView

record app_state =
  sessions :: "session list"
  locationHistory :: "string list"
  activeSessionId :: "string option"
  view :: view_state

definition newSession :: "(string \<Rightarrow> real) \<Rightarrow> env \<Rightarrow> new_session_data \<Rightarrow> session" where
  "newSession parseFloat e newSessionData =
     \<lparr> se_id = toString (clock_now e),
       se_type = n_type newSessionData,
       se_name = (if n_name newSessionData \<noteq> [] then n_name newSessionData
                  else ''Session '' @ n_date newSessionData),
       se_date = n_date newSessionData,
       se_startTime = n_startTime newSessionData,
       se_endTime = None,
       se_observers = (if n_observers newSessionData \<noteq> [] then n_observers newSessionData else ''Self''),
       se_notes = [],
       se_latitude = (if n_lat newSessionData \<noteq> [] then Some (parseFloat (n_lat newSessionData)) else None),
       se_longitude = (if n_lng newSessionData \<noteq> [] then Some (parseFloat (n_lng newSessionData)) else None),
       se_weather = \<lparr> temperature = n_temp newSessionData, cloudCover = n_cloud newSessionData,
                      windSpeed = n_wind newSessionData, precipitation = n_precip newSessionData \<rparr>,
       se_sightings = [],
       se_status = Active,
       se_syncStatus = Unsynced,
       se_remoteId = None \<rparr>"

definition handleStartSession ::
  "(string \<Rightarrow> real) \<Rightarrow> env \<Rightarrow> new_session_data \<Rightarrow> app_state \<Rightarrow> app_state" where
  "handleStartSession parseFloat e newSessionData st =
     st\<lparr> locationHistory :=
           (if n_name newSessionData \<noteq> [] \<and> n_name newSessionData \<notin> set (locationHistory st)
            then take 10 (n_name newSessionData # locationHistory st)
            else locationHistory st),
         sessions := newSession parseFloat e newSessionData # sessions st,
         activeSessionId := Some (toString (clock_now e)),
         view := ActiveSession \<rparr>"

text \<open>A sequence of session starts, each with its clock and its form.\<close>

fun start_sessions ::
  "(string \<Rightarrow> real) \<Rightarrow> app_state \<Rightarrow> (env \<times> new_session_data) list \<Rightarrow> app_state" where
  "start_sessions parseFloat st [] = st"
| "start_sessions parseFloat st ((e, d) # ds) =
     start_sessions parseFloat (handleStartSession parseFloat e d st) ds"

section \<open>Sample data\<close>

text \<open>Concrete values at which the theorems below are instantiated.\<close>

definition sample_sighting :: "string \<Rightarrow> string \<Rightarrow> int \<Rightarrow> sighting" where
  "sample_sighting i sp c =
     \<lparr> sg_id = i, sg_speciesId = sp, sg_timestamp = 1700000000000, sg_count = c,
       sg_latitude = None, sg_longitude = None, sg_direction = None, sg_age = None, sg_sex = None,
       sg_morph = None, sg_distance = None, sg_status = None, sg_countType = None,
       sg_comment = None \<rparr>"

definition sample_session :: "sighting list \<Rightarrow> session" where
  "sample_session xs =
     \<lparr> se_id = ''1700000000000'', se_type = Trip, se_name = ''Marsh'', se_date = ''2023-11-14'',
       se_startTime = ''22:13'', se_endTime = None, se_observers = ''Self'', se_notes = [],
       se_latitude = None, se_longitude = None,
       se_weather = \<lparr> temperature = [], cloudCover = [], windSpeed = [], precipitation = [] \<rparr>,
       se_sightings = xs, se_status = Active, se_syncStatus = Unsynced, se_remoteId = None \<rparr>"

definition sample_completed_session :: session where
  "sample_completed_session = (sample_session [sample_sighting ''a'' ''189'' 3])\<lparr> se_status := Completed \<rparr>"

definition sample_env :: "nat \<Rightarrow> string \<Rightarrow> env" where
  "sample_env t r = \<lparr> clock_iso = int t, clock_now = t, random_digits = r \<rparr>"

definition sample_species :: "string \<Rightarrow> string \<Rightarrow> species" where
  "sample_species i n = \<lparr> sp_id = i, sp_name = n, sp_abbreviation = take 3 n, sp_family = None \<rparr>"






text \<open>The state \<^verbatim>\<open>App\<close> starts in (the initial values of its \<^verbatim>\<open>useState\<close> calls).\<close>

definition initial_state :: app_state where
  "initial_state = \<lparr> sessions = [], locationHistory = [], activeSessionId = None, view = Dashboard \<rparr>"

definition sample_form :: "string \<Rightarrow> new_session_data" where
  "sample_form n =
     \<lparr> n_name = n, n_date = ''2023-11-14'', n_startTime = ''22:13'', n_observers = [],
       n_lat = [], n_lng = [], n_type = Trip, n_temp = [], n_cloud = [], n_wind = [],
       n_precip = [] \<rparr>"


text \<open>The grouping loop of the report, from any starting object.\<close>

definition count_step :: "int js_object \<Rightarrow> sighting \<Rightarrow> int js_object" where
  "count_step obj s =
     obj_set obj (sg_speciesId s)
       ((case obj_get obj (sg_speciesId s) of None \<Rightarrow> 0 | Some c \<Rightarrow> c) + sg_count s)"

text \<open>The entries of the grouping object in the order the report lists them.\<close>

definition report_entries :: "sighting list \<Rightarrow> (string \<times> int) list" where
  "report_entries xs = js_sort (\<lambda>(ka, a) (kb, b). b - a) (Object_entries (speciesCounts xs))"

text \<open>The sightings of the example in section 8 of the specification.\<close>

definition sample_report_session :: session where
  "sample_report_session =
     sample_session [sample_sighting ''a'' ''x'' 3, sample_sighting ''b'' ''x'' 2,
                     sample_sighting ''c'' ''y'' 5]"

definition sample_tie_session :: session where
  "sample_tie_session = sample_session [sample_sighting ''a'' ''1'' 5, sample_sighting ''b'' ''2'' 5]"

text \<open>
  A comparator and a lower-casing to instantiate the parameters of
  \<open>filteredAndSortedSpecies\<close> with: comparison by code units, which is what
  \<^verbatim>\<open>localeCompare\<close> amounts to on names of lower-case letters, and \<^verbatim>\<open>toLowerCase\<close> on
  ASCII text.
\<close>

fun compare_units :: "string \<Rightarrow> string \<Rightarrow> int" where
  "compare_units [] [] = 0"
| "compare_units [] (y # ys) = - 1"
| "compare_units (x # xs) [] = 1"
| "compare_units (x # xs) (y # ys) =
     (if (of_char x :: nat) < of_char y then - 1
      else if (of_char y :: nat) < of_char x then 1
      else compare_units xs ys)"

definition lower_char :: "char \<Rightarrow> char" where
  "lower_char c =
     (if (65::nat) \<le> of_char c \<and> of_char c \<le> (90::nat)
      then ''abcdefghijklmnopqrstuvwxyz'' ! (of_char c - 65) else c)"

definition ascii_lower :: "string \<Rightarrow> string" where
  "ascii_lower s = map lower_char s"

definition sample_catalogue :: "species list" where
  "sample_catalogue =
     [sample_species ''A'' ''Robin'', sample_species ''B'' ''Crow'', sample_species ''C'' ''Wren'']"

definition sample_grid_session :: session where
  "sample_grid_session = sample_session [sample_sighting ''s1'' ''C'' 2, sample_sighting ''s2'' ''B'' 1]"

definition sample_negative_session :: session where
  "sample_negative_session =
     (sample_session [sample_sighting ''s1'' ''2'' (- 1)])\<lparr> se_type := Counting \<rparr>"

chapter \<open>Properties\<close>

section \<open>Derived counts\<close>

lemma foldl_count_acc:
  "foldl (\<lambda>acc curr. acc + sg_count curr) a xs = a + sum_list (map sg_count xs)"
  by (induction xs arbitrary: a) auto

lemma getCountForSpecies_sum:
  "getCountForSpecies s i = count_sum i (se_sightings s)"
  by (simp add: getCountForSpecies_def count_sum_def foldl_count_acc)

lemma count_sum_mset:
  "mset xs = mset ys \<Longrightarrow> count_sum i xs = count_sum i ys"
proof -
  assume eq: "mset xs = mset ys"
  have "count_sum i zs = sum_mset (image_mset sg_count (filter_mset (\<lambda>s. sg_speciesId s = i) (mset zs)))" for zs
    by (simp add: count_sum_def flip: sum_mset_sum_list)
  with eq show ?thesis by simp
qed

lemma count_sum_append [simp]:
  "count_sum i (xs @ ys) = count_sum i xs + count_sum i ys"
  by (simp add: count_sum_def)

lemma append_calls_count:
  "se_status s = Active \<Longrightarrow>
   getCountForSpecies (append_calls s calls) i = getCountForSpecies s i + data_sum i (map snd calls)"
proof (induction s calls rule: append_calls.induct)
  case (1 s)
  then show ?case by (simp add: data_sum_def)
next
  case (2 s e data calls)
  let ?s' = "session_after s (addSighting e s data)"
  from 2 have act: "se_status ?s' = Active"
    by (simp add: addSighting_def isCompleted_def)
  have step: "getCountForSpecies ?s' i = getCountForSpecies s i + (if d_speciesId data = i then d_count data else 0)"
    using 2(2) by (simp add: addSighting_def isCompleted_def getCountForSpecies_sum count_sum_def newSighting_def)
  from 2(1)[OF act] step show ?case
    by (simp add: data_sum_def)
qed

lemma data_sum_mset:
  "mset ds = mset ds' \<Longrightarrow> data_sum i ds = data_sum i ds'"
proof -
  assume eq: "mset ds = mset ds'"
  have "data_sum i zs = sum_mset (image_mset d_count (filter_mset (\<lambda>d. d_speciesId d = i) (mset zs)))" for zs
    by (simp add: data_sum_def flip: sum_mset_sum_list)
  with eq show ?thesis by simp
qed

text \<open>
  C1. \<^verbatim>\<open>getCountForSpecies\<close> is the sum of the \<^verbatim>\<open>count\<close> fields of exactly the
  sightings of the session whose \<^verbatim>\<open>speciesId\<close> is the given id, and 0 when no
  sighting matches. It depends on the multiset of the sightings only, not on
  their order; and after any sequence of \<^verbatim>\<open>addSighting\<close> calls on an active session
  it is the value before plus the sum of the appended counts for that species,
  which again depends on the multiset of the appended data only.
\<close>

theorem getCountForSpecies_sum_of_matching:
  "getCountForSpecies s i = sum_list (map sg_count (filter (\<lambda>x. sg_speciesId x = i) (se_sightings s)))
   \<and> ((\<forall>x \<in> set (se_sightings s). sg_speciesId x \<noteq> i) \<longrightarrow> getCountForSpecies s i = 0)
   \<and> (mset (se_sightings s) = mset (se_sightings s') \<longrightarrow> getCountForSpecies s i = getCountForSpecies s' i)
   \<and> (se_status s = Active \<longrightarrow>
        getCountForSpecies (append_calls s calls) i
          = getCountForSpecies s i
            + sum_list (map d_count (filter (\<lambda>d. d_speciesId d = i) (map snd calls))))
   \<and> (se_status s = Active \<and> mset (map snd calls) = mset (map snd calls') \<longrightarrow>
        getCountForSpecies (append_calls s calls) i = getCountForSpecies (append_calls s calls') i)"
proof (intro conjI impI)
  show "getCountForSpecies s i = sum_list (map sg_count (filter (\<lambda>x. sg_speciesId x = i) (se_sightings s)))"
    by (simp add: getCountForSpecies_sum count_sum_def)
next
  assume none: "\<forall>x \<in> set (se_sightings s). sg_speciesId x \<noteq> i"
  then have "filter (\<lambda>x. sg_speciesId x = i) (se_sightings s) = []"
    by (simp add: filter_empty_conv)
  then show "getCountForSpecies s i = 0"
    by (simp add: getCountForSpecies_def)
next
  assume "mset (se_sightings s) = mset (se_sightings s')"
  then show "getCountForSpecies s i = getCountForSpecies s' i"
    unfolding getCountForSpecies_sum by (rule count_sum_mset)
next
  assume "se_status s = Active"
  then show "getCountForSpecies (append_calls s calls) i
          = getCountForSpecies s i
            + sum_list (map d_count (filter (\<lambda>d. d_speciesId d = i) (map snd calls)))"
    by (simp add: append_calls_count data_sum_def)
next
  assume h: "se_status s = Active \<and> mset (map snd calls) = mset (map snd calls')"
  then have "data_sum i (map snd calls) = data_sum i (map snd calls')"
    by (intro data_sum_mset) simp
  moreover from h have "se_status s = Active" by simp
  ultimately show "getCountForSpecies (append_calls s calls) i = getCountForSpecies (append_calls s calls') i"
    by (simp only: append_calls_count)
qed

theorem getCountForSpecies_sum_of_matching_witness:
  "''191'' \<notin> sg_speciesId ` set (se_sightings (sample_session [sample_sighting ''a'' ''189'' 3, sample_sighting ''b'' ''190'' 2]))
   \<and> mset (se_sightings (sample_session [sample_sighting ''a'' ''189'' 3, sample_sighting ''b'' ''190'' 2]))
       = mset (se_sightings (sample_session [sample_sighting ''b'' ''190'' 2, sample_sighting ''a'' ''189'' 3]))
   \<and> se_status (sample_session [sample_sighting ''a'' ''189'' 3, sample_sighting ''b'' ''190'' 2]) = Active
   \<and> mset (map snd [(sample_env 1 ''001'', simple_data ''191'' 1), (sample_env 2 ''002'', simple_data ''191'' 4)])
       = mset (map snd [(sample_env 2 ''002'', simple_data ''191'' 4), (sample_env 1 ''001'', simple_data ''191'' 1)])
   \<and> getCountForSpecies (sample_session [sample_sighting ''a'' ''189'' 3, sample_sighting ''b'' ''190'' 2]) ''191'' = 0
   \<and> getCountForSpecies (sample_session [sample_sighting ''a'' ''189'' 3, sample_sighting ''b'' ''190'' 2]) ''189''
       = getCountForSpecies (sample_session [sample_sighting ''b'' ''190'' 2, sample_sighting ''a'' ''189'' 3]) ''189''
   \<and> getCountForSpecies
         (append_calls (sample_session [sample_sighting ''a'' ''189'' 3, sample_sighting ''b'' ''190'' 2])
            [(sample_env 1 ''001'', simple_data ''191'' 1), (sample_env 2 ''002'', simple_data ''191'' 4)]) ''191'' = 5
   \<and> getCountForSpecies
         (append_calls (sample_session [sample_sighting ''a'' ''189'' 3, sample_sighting ''b'' ''190'' 2])
            [(sample_env 2 ''002'', simple_data ''191'' 4), (sample_env 1 ''001'', simple_data ''191'' 1)]) ''191'' = 5"
  using getCountForSpecies_sum_of_matching
    [of "sample_session [sample_sighting ''a'' ''189'' 3, sample_sighting ''b'' ''190'' 2]" "''191''"
        "sample_session [sample_sighting ''b'' ''190'' 2, sample_sighting ''a'' ''189'' 3]"
        "[(sample_env 1 ''001'', simple_data ''191'' 1), (sample_env 2 ''002'', simple_data ''191'' 4)]"
        "[(sample_env 2 ''002'', simple_data ''191'' 4), (sample_env 1 ''001'', simple_data ''191'' 1)]"]
  by (simp add: sample_session_def sample_sighting_def simple_data_def getCountForSpecies_def
        addSighting_def isCompleted_def newSighting_def)

section \<open>Appending and removing records\<close>

lemma sample_session_sightings [simp]: "se_sightings (sample_session xs) = xs"
  by (simp add: sample_session_def)

lemma sample_session_status [simp]: "se_status (sample_session xs) = Active"
  by (simp add: sample_session_def)

lemma toString_1700000000000: "toString 1700000000000 = ''1700000000000''"
  by (simp add: toString.simps digit_char_def)

lemma toString_1700000000001: "toString 1700000000001 = ''1700000000001''"
  by (simp add: toString.simps digit_char_def)

lemma addSighting_completed:
  "se_status s = Completed \<Longrightarrow>
   addSighting e s data = Inl (Alert ''Session is finished. Re-open to add counts.'')"
  by (simp add: addSighting_def isCompleted_def)

lemma addSighting_active:
  "se_status s = Active \<Longrightarrow>
   session_after s (addSighting e s data) = s\<lparr> se_sightings := se_sightings s @ [newSighting e s data] \<rparr>"
  by (simp add: addSighting_def isCompleted_def)

lemma SessionView_event_completed:
  "se_status s = Completed \<Longrightarrow>
   SessionView_event e z s ev
     = (if ev = ResumeCounting then Inr (Some (s\<lparr> se_status := Active \<rparr>)) else Inr None)"
  by (cases ev) (simp_all add: SessionView_event_def isCompleted_def resumeCounting_def)

text \<open>
  C2. On a completed session \<^verbatim>\<open>addSighting\<close> raises the alert and leaves the
  sightings as they are. \<^verbatim>\<open>handleRecordDelete\<close> has no test of the status and raises no
  alert; what keeps it from a completed session is the view, which renders the
  report alone for such a session: every event of the view leaves the sightings of
  a completed session as they are, and the only one that calls \<^verbatim>\<open>onUpdateSession\<close>
  is \<^verbatim>\<open>Resume Counting\<close>, which changes the status.
\<close>

theorem completed_session_sightings_kept:
  "se_status s = Completed \<Longrightarrow>
   addSighting e s data = Inl (Alert ''Session is finished. Re-open to add counts.'')
   \<and> se_sightings (session_after s (addSighting e s data)) = se_sightings s
   \<and> se_sightings (session_after s (SessionView_event e z s ev)) = se_sightings s
   \<and> (ev \<noteq> ResumeCounting \<longrightarrow> SessionView_event e z s ev = Inr None)
   \<and> SessionView_event e z s ResumeCounting = Inr (Some (s\<lparr> se_status := Active \<rparr>))
   \<and> handleRecordDelete confirmed s i
       = (if confirmed
          then Inr (Some (s\<lparr> se_sightings := filter (\<lambda>x. sg_id x \<noteq> i) (se_sightings s) \<rparr>))
          else Inr None)"
  by (simp add: SessionView_event_completed addSighting_completed handleRecordDelete_def)

theorem completed_session_sightings_kept_witness:
  "se_status sample_completed_session = Completed
   \<and> addSighting (sample_env 1700000000000 ''123'') sample_completed_session (simple_data ''189'' 1)
       = Inl (Alert ''Session is finished. Re-open to add counts.'')
   \<and> DeleteRecord True ''a'' \<noteq> ResumeCounting
   \<and> SessionView_event (sample_env 1700000000000 ''123'') (fixed_zone 0) sample_completed_session
         (DeleteRecord True ''a'') = Inr None
   \<and> se_sightings (session_after sample_completed_session
         (SessionView_event (sample_env 1700000000000 ''123'') (fixed_zone 0) sample_completed_session
            (DeleteRecord True ''a'')))
       = se_sightings sample_completed_session"
proof -
  have compl: "se_status sample_completed_session = Completed"
    by (simp add: sample_completed_session_def)
  note main = completed_session_sightings_kept [OF compl,
      of "sample_env 1700000000000 ''123''" "simple_data ''189'' 1" "fixed_zone 0"
         "DeleteRecord True ''a''" True "''a''"]
  have other: "DeleteRecord True ''a'' \<noteq> ResumeCounting"
    by simp
  have alert: "addSighting (sample_env 1700000000000 ''123'') sample_completed_session (simple_data ''189'' 1)
       = Inl (Alert ''Session is finished. Re-open to add counts.'')"
    by (rule main [THEN conjunct1])
  have kept: "se_sightings (session_after sample_completed_session
         (SessionView_event (sample_env 1700000000000 ''123'') (fixed_zone 0) sample_completed_session
            (DeleteRecord True ''a'')))
       = se_sightings sample_completed_session"
    by (rule main [THEN conjunct2, THEN conjunct2, THEN conjunct1])
  have nocall: "SessionView_event (sample_env 1700000000000 ''123'') (fixed_zone 0) sample_completed_session
         (DeleteRecord True ''a'') = Inr None"
    by (rule mp [OF main [THEN conjunct2, THEN conjunct2, THEN conjunct2, THEN conjunct1] other])
  from compl alert other nocall kept show ?thesis
    by blast
qed

text \<open>
  The handler itself, given the completed session with the single record \<open>a\<close> and
  a confirmed dialog, calls \<^verbatim>\<open>onUpdateSession\<close> with an empty list of sightings and
  raises no alert.
\<close>

theorem handleRecordDelete_completed_removes:
  "se_status ((sample_session [sample_sighting ''a'' ''189'' 3])\<lparr> se_status := Completed \<rparr>) = Completed
   \<and> addSighting (sample_env 1700000000000 ''123'')
         ((sample_session [sample_sighting ''a'' ''189'' 3])\<lparr> se_status := Completed \<rparr>)
         (simple_data ''189'' 1)
       = Inl (Alert ''Session is finished. Re-open to add counts.'')
   \<and> handleRecordDelete True
         ((sample_session [sample_sighting ''a'' ''189'' 3])\<lparr> se_status := Completed \<rparr>) ''a''
       = Inr (Some ((sample_session [])\<lparr> se_status := Completed \<rparr>))
   \<and> se_sightings (session_after
         ((sample_session [sample_sighting ''a'' ''189'' 3])\<lparr> se_status := Completed \<rparr>)
         (handleRecordDelete True
            ((sample_session [sample_sighting ''a'' ''189'' 3])\<lparr> se_status := Completed \<rparr>) ''a''))
       = []"
  by (simp add: handleRecordDelete_def addSighting_def isCompleted_def sample_session_def
        sample_sighting_def)

text \<open>
  C5. Appending a record and then removing the record of the new id gives back
  the sightings from before the append, provided no record of the session already
  carries that id: \<^verbatim>\<open>handleRecordDelete\<close> drops every record of the id it is given.
\<close>

theorem append_then_remove_restores:
  "se_status s = Active \<Longrightarrow>
   sg_id (newSighting e s data) \<notin> sg_id ` set (se_sightings s) \<Longrightarrow>
   addSighting e s data = Inr (Some (s\<lparr> se_sightings := se_sightings s @ [newSighting e s data] \<rparr>))
   \<and> se_sightings
        (session_after (session_after s (addSighting e s data))
           (handleRecordDelete True (session_after s (addSighting e s data))
              (sg_id (newSighting e s data))))
       = se_sightings s"
proof -
  assume act: "se_status s = Active"
    and fresh: "sg_id (newSighting e s data) \<notin> sg_id ` set (se_sightings s)"
  from fresh have keep: "filter (\<lambda>x. sg_id x \<noteq> sg_id (newSighting e s data)) (se_sightings s) = se_sightings s"
    by (force simp: filter_id_conv image_iff)
  from act keep show ?thesis
    by (simp add: addSighting_def isCompleted_def handleRecordDelete_def)
qed

theorem append_then_remove_restores_witness:
  "se_status (sample_session [sample_sighting ''1700000000000123'' ''189'' 3]) = Active
   \<and> sg_id (newSighting (sample_env 1700000000001 ''123'')
              (sample_session [sample_sighting ''1700000000000123'' ''189'' 3]) (simple_data ''189'' 1))
       \<notin> sg_id ` set (se_sightings (sample_session [sample_sighting ''1700000000000123'' ''189'' 3]))
   \<and> se_sightings
        (session_after
           (session_after (sample_session [sample_sighting ''1700000000000123'' ''189'' 3])
              (addSighting (sample_env 1700000000001 ''123'')
                 (sample_session [sample_sighting ''1700000000000123'' ''189'' 3]) (simple_data ''189'' 1)))
           (handleRecordDelete True
              (session_after (sample_session [sample_sighting ''1700000000000123'' ''189'' 3])
                 (addSighting (sample_env 1700000000001 ''123'')
                    (sample_session [sample_sighting ''1700000000000123'' ''189'' 3]) (simple_data ''189'' 1)))
              (sg_id (newSighting (sample_env 1700000000001 ''123'')
                 (sample_session [sample_sighting ''1700000000000123'' ''189'' 3]) (simple_data ''189'' 1)))))
       = [sample_sighting ''1700000000000123'' ''189'' 3]"
proof -
  note id = toString_1700000000001
  have act: "se_status (sample_session [sample_sighting ''1700000000000123'' ''189'' 3]) = Active"
    by simp
  have fresh: "sg_id (newSighting (sample_env 1700000000001 ''123'')
              (sample_session [sample_sighting ''1700000000000123'' ''189'' 3]) (simple_data ''189'' 1))
       \<notin> sg_id ` set (se_sightings (sample_session [sample_sighting ''1700000000000123'' ''189'' 3]))"
    by (simp add: newSighting_def simple_data_def generated_id_def sample_env_def id
          sample_sighting_def)
  from append_then_remove_restores [OF act fresh, THEN conjunct2]
  have restored: "se_sightings
        (session_after
           (session_after (sample_session [sample_sighting ''1700000000000123'' ''189'' 3])
              (addSighting (sample_env 1700000000001 ''123'')
                 (sample_session [sample_sighting ''1700000000000123'' ''189'' 3]) (simple_data ''189'' 1)))
           (handleRecordDelete True
              (session_after (sample_session [sample_sighting ''1700000000000123'' ''189'' 3])
                 (addSighting (sample_env 1700000000001 ''123'')
                    (sample_session [sample_sighting ''1700000000000123'' ''189'' 3]) (simple_data ''189'' 1)))
              (sg_id (newSighting (sample_env 1700000000001 ''123'')
                 (sample_session [sample_sighting ''1700000000000123'' ''189'' 3]) (simple_data ''189'' 1)))))
       = [sample_sighting ''1700000000000123'' ''189'' 3]"
    by (simp only: sample_session_sightings)
  show ?thesis
    by (intro conjI act fresh restored)
qed

theorem append_then_remove_collision:
  "se_status (sample_session [sample_sighting ''1700000000000123'' ''189'' 3]) = Active
   \<and> sg_id (newSighting (sample_env 1700000000000 ''123'')
              (sample_session [sample_sighting ''1700000000000123'' ''189'' 3]) (simple_data ''189'' 1))
       = ''1700000000000123''
   \<and> se_sightings
        (session_after
           (session_after (sample_session [sample_sighting ''1700000000000123'' ''189'' 3])
              (addSighting (sample_env 1700000000000 ''123'')
                 (sample_session [sample_sighting ''1700000000000123'' ''189'' 3]) (simple_data ''189'' 1)))
           (handleRecordDelete True
              (session_after (sample_session [sample_sighting ''1700000000000123'' ''189'' 3])
                 (addSighting (sample_env 1700000000000 ''123'')
                    (sample_session [sample_sighting ''1700000000000123'' ''189'' 3]) (simple_data ''189'' 1)))
              ''1700000000000123''))
       = []
   \<and> se_sightings (sample_session [sample_sighting ''1700000000000123'' ''189'' 3]) \<noteq> []"
proof -
  note id = toString_1700000000000
  show ?thesis
    by (simp add: newSighting_def simple_data_def generated_id_def sample_env_def id
          sample_sighting_def addSighting_def isCompleted_def handleRecordDelete_def)
qed

section \<open>Finishing and resuming\<close>

text \<open>
  C6. Finishing an active session (the dialog confirmed) and resuming it gives the
  original session with \<^verbatim>\<open>endTime\<close> set to the time of the finish: the sightings,
  the name, date, start time, observers, notes, weather, coordinates and the sync
  status are those of the original, the status is active again, and the resume
  keeps the \<^verbatim>\<open>endTime\<close> that the finish wrote, as it keeps every other field.
\<close>

theorem finish_then_resume_frame:
  "se_status s = Active \<Longrightarrow>
   handleToggleFinish True now s = Inr (Some (s\<lparr> se_status := Completed, se_endTime := Some now \<rparr>))
   \<and> resumeCounting (session_after s (handleToggleFinish True now s))
       = Inr (Some (s\<lparr> se_endTime := Some now \<rparr>))
   \<and> (let r = session_after (session_after s (handleToggleFinish True now s))
                  (resumeCounting (session_after s (handleToggleFinish True now s)))
      in r = s\<lparr> se_endTime := Some now \<rparr>
         \<and> se_sightings r = se_sightings s \<and> se_name r = se_name s \<and> se_date r = se_date s
         \<and> se_startTime r = se_startTime s \<and> se_observers r = se_observers s
         \<and> se_notes r = se_notes s \<and> se_weather r = se_weather s
         \<and> se_latitude r = se_latitude s \<and> se_longitude r = se_longitude s
         \<and> se_syncStatus r = se_syncStatus s \<and> se_status r = Active
         \<and> se_endTime r = Some now)
   \<and> resumeCounting f = Inr (Some (f\<lparr> se_status := Active \<rparr>))
   \<and> se_endTime (session_after f (resumeCounting f)) = se_endTime f"
  by (simp add: handleToggleFinish_def resumeCounting_def Let_def)

theorem finish_then_resume_frame_witness:
  "se_status (sample_session [sample_sighting ''a'' ''189'' 3]) = Active
   \<and> session_after
         (session_after (sample_session [sample_sighting ''a'' ''189'' 3])
            (handleToggleFinish True ''23:05'' (sample_session [sample_sighting ''a'' ''189'' 3])))
         (resumeCounting
            (session_after (sample_session [sample_sighting ''a'' ''189'' 3])
               (handleToggleFinish True ''23:05'' (sample_session [sample_sighting ''a'' ''189'' 3]))))
       = (sample_session [sample_sighting ''a'' ''189'' 3])\<lparr> se_endTime := Some ''23:05'' \<rparr>"
proof -
  have act: "se_status (sample_session [sample_sighting ''a'' ''189'' 3]) = Active"
    by simp
  from finish_then_resume_frame [OF act, of "''23:05''" "sample_session []"]
  have "session_after
         (session_after (sample_session [sample_sighting ''a'' ''189'' 3])
            (handleToggleFinish True ''23:05'' (sample_session [sample_sighting ''a'' ''189'' 3])))
         (resumeCounting
            (session_after (sample_session [sample_sighting ''a'' ''189'' 3])
               (handleToggleFinish True ''23:05'' (sample_session [sample_sighting ''a'' ''189'' 3]))))
       = (sample_session [sample_sighting ''a'' ''189'' 3])\<lparr> se_endTime := Some ''23:05'' \<rparr>"
    unfolding Let_def by (elim conjE)
  with act show ?thesis
    by (intro conjI)
qed

section \<open>Trip-mode increments\<close>

lemma handleSimpleIncrement_count:
  "getCountForSpecies (session_after s (handleSimpleIncrement e s i a)) j
     = (if (a < 0 \<and> getCountForSpecies s i \<le> 0) \<or> se_status s = Completed
        then getCountForSpecies s j
        else getCountForSpecies s j + (if i = j then a else 0))"
  by (auto simp: handleSimpleIncrement_def Let_def addSighting_def isCompleted_def
        getCountForSpecies_sum count_sum_def newSighting_def simple_data_def)

lemma handleSimpleIncrement_nonneg:
  assumes "\<forall>j. 0 \<le> getCountForSpecies s j" and "- 1 \<le> a"
  shows "0 \<le> getCountForSpecies (session_after s (handleSimpleIncrement e s i a)) j"
proof -
  from assms(1) have "0 \<le> getCountForSpecies s j" and "0 \<le> getCountForSpecies s i"
    by simp_all
  with assms(2) show ?thesis
    unfolding handleSimpleIncrement_count by auto
qed

lemma increment_calls_nonneg:
  "\<forall>j. 0 \<le> getCountForSpecies s j \<Longrightarrow> \<forall>c \<in> set calls. - 1 \<le> snd (snd c) \<Longrightarrow>
   0 \<le> getCountForSpecies (increment_calls s calls) j"
proof (induction s calls rule: increment_calls.induct)
  case (1 s)
  then show ?case by simp
next
  case (2 s e speciesId amount calls)
  from 2(3) have a: "- 1 \<le> amount" by simp
  have "\<forall>j. 0 \<le> getCountForSpecies (session_after s (handleSimpleIncrement e s speciesId amount)) j"
    using handleSimpleIncrement_nonneg [OF 2(2) a] by blast
  moreover from 2(3) have "\<forall>c \<in> set calls. - 1 \<le> snd (snd c)" by simp
  ultimately show ?case
    using 2(1) by simp
qed

text \<open>
  C8. Starting from a session in which no species has a negative total (a new
  session has no sightings), after any sequence of \<^verbatim>\<open>handleSimpleIncrement\<close> calls
  with the amounts the trip-mode buttons pass (1 and -1; any amount from -1 up
  will do) no species has a negative total; and a negative amount is refused, with
  no sighting appended, whenever the running total of the species is 0 or less.
  The guard looks at the sign of the amount and at the total only, so an amount
  below -1 can take a positive total below zero.
\<close>

theorem simple_increment_never_negative:
  "\<forall>j. 0 \<le> getCountForSpecies s j \<Longrightarrow> \<forall>c \<in> set calls. - 1 \<le> snd (snd c) \<Longrightarrow>
   (\<forall>j. 0 \<le> getCountForSpecies (increment_calls s calls) j)
   \<and> (amount < 0 \<and> getCountForSpecies s' i \<le> 0 \<longrightarrow>
        handleSimpleIncrement e s' i amount = Inr None
        \<and> se_sightings (session_after s' (handleSimpleIncrement e s' i amount)) = se_sightings s')"
  by (simp add: increment_calls_nonneg handleSimpleIncrement_def)

theorem simple_increment_never_negative_witness:
  "(\<forall>j. 0 \<le> getCountForSpecies (sample_session []) j)
   \<and> list_all (\<lambda>c. - 1 \<le> snd (snd c))
        [(sample_env 1 ''001'', ''189'', 1::int), (sample_env 2 ''002'', ''189'', - 1),
         (sample_env 3 ''003'', ''189'', - 1)]
   \<and> (\<forall>j. 0 \<le> getCountForSpecies
          (increment_calls (sample_session [])
             [(sample_env 1 ''001'', ''189'', 1), (sample_env 2 ''002'', ''189'', - 1),
              (sample_env 3 ''003'', ''189'', - 1)]) j)
   \<and> (- 1 < (0::int) \<and> getCountForSpecies (sample_session []) ''189'' \<le> 0)
   \<and> handleSimpleIncrement (sample_env 3 ''003'') (sample_session []) ''189'' (- 1) = Inr None"
proof -
  have zero: "\<forall>j. 0 \<le> getCountForSpecies (sample_session []) j"
    by (simp add: getCountForSpecies_def)
  have small: "\<forall>c \<in> set [(sample_env 1 ''001'', ''189'', 1::int), (sample_env 2 ''002'', ''189'', - 1),
         (sample_env 3 ''003'', ''189'', - 1)]. - 1 \<le> snd (snd c)"
    by simp
  have refused: "- 1 < (0::int) \<and> getCountForSpecies (sample_session []) ''189'' \<le> 0"
    by (simp add: getCountForSpecies_def)
  note main = simple_increment_never_negative [OF zero small,
      of "- 1" "sample_session []" "''189''" "sample_env 3 ''003''"]
  from main have total: "\<forall>j. 0 \<le> getCountForSpecies
          (increment_calls (sample_session [])
             [(sample_env 1 ''001'', ''189'', 1), (sample_env 2 ''002'', ''189'', - 1),
              (sample_env 3 ''003'', ''189'', - 1)]) j"
    by (rule conjunct1)
  from main refused
  have none: "handleSimpleIncrement (sample_env 3 ''003'') (sample_session []) ''189'' (- 1) = Inr None"
    by blast
  have all: "list_all (\<lambda>c. - 1 \<le> snd (snd c))
        [(sample_env 1 ''001'', ''189'', 1::int), (sample_env 2 ''002'', ''189'', - 1),
         (sample_env 3 ''003'', ''189'', - 1)]"
    by simp
  show ?thesis
    using refused by (intro conjI zero all total none) simp_all
qed

text \<open>From a total of 1 the amount -2 is not refused, and the total becomes -1.\<close>

theorem simple_increment_below_minus_one:
  "getCountForSpecies
     (increment_calls (sample_session []) [(sample_env 1 ''001'', ''189'', 1)]) ''189'' = 1
   \<and> getCountForSpecies
       (increment_calls (sample_session [])
          [(sample_env 1 ''001'', ''189'', 1), (sample_env 2 ''002'', ''189'', - 2)]) ''189'' = - 1"
  by (simp add: handleSimpleIncrement_def addSighting_def isCompleted_def getCountForSpecies_def
        newSighting_def simple_data_def Let_def)

section \<open>Editing a record\<close>











lemma form_sighting_id [simp]: "sg_id (form_sighting a es) = sg_id es"
  by (cases a) simp_all

lemma form_sighting_speciesId [simp]: "sg_speciesId (form_sighting a es) = sg_speciesId es"
  by (cases a) simp_all






section \<open>Location history\<close>

lemma handleStartSession_history:
  "locationHistory (handleStartSession pf e d st)
     = (if n_name d \<noteq> [] \<and> n_name d \<notin> set (locationHistory st)
        then take 10 (n_name d # locationHistory st) else locationHistory st)"
  by (simp add: handleStartSession_def)

lemma handleStartSession_history_inv:
  assumes "distinct (locationHistory st)" and "length (locationHistory st) \<le> 10"
  shows "distinct (locationHistory (handleStartSession pf e d st))
         \<and> length (locationHistory (handleStartSession pf e d st)) \<le> 10
         \<and> set (locationHistory (handleStartSession pf e d st))
             \<subseteq> set (locationHistory st) \<union> {n_name d}"
proof (cases "n_name d \<noteq> [] \<and> n_name d \<notin> set (locationHistory st)")
  case True
  with assms(1) have "distinct (n_name d # locationHistory st)" by simp
  then have "distinct (take 10 (n_name d # locationHistory st))"
    by (rule distinct_take)
  moreover have "set (take 10 (n_name d # locationHistory st)) \<subseteq> set (n_name d # locationHistory st)"
    by (rule set_take_subset)
  ultimately show ?thesis
    using True unfolding handleStartSession_history by auto
next
  case False
  with assms show ?thesis
    unfolding handleStartSession_history by auto
qed

lemma start_sessions_history_inv:
  "distinct (locationHistory st) \<Longrightarrow> length (locationHistory st) \<le> 10 \<Longrightarrow>
   distinct (locationHistory (start_sessions pf st ds))
   \<and> length (locationHistory (start_sessions pf st ds)) \<le> 10
   \<and> set (locationHistory (start_sessions pf st ds))
       \<subseteq> set (locationHistory st) \<union> n_name ` snd ` set ds"
proof (induction pf st ds rule: start_sessions.induct)
  case (1 pf st)
  then show ?case by simp
next
  case (2 pf st e d ds)
  note step = handleStartSession_history_inv [OF 2(2) 2(3), of pf e d]
  from step have "distinct (locationHistory (handleStartSession pf e d st))"
    and "length (locationHistory (handleStartSession pf e d st)) \<le> 10"
    by simp_all
  from 2(1) [OF this] step show ?case
    by auto
qed

text \<open>
  C10. From a history of at most 10 distinct names (the empty history the
  application starts with), after any sequence of session starts the history
  holds at most 10 distinct names, each of them a name of the old history or of a
  started session. A start with a non-empty name that is not in the history puts
  the name in front and cuts the list to 10 entries, so that name comes first; a
  start with an empty name, or with a name the history already holds, leaves the
  history as it is: a name that is used again keeps its place.
\<close>

theorem locationHistory_invariant:
  "distinct (locationHistory st) \<Longrightarrow> length (locationHistory st) \<le> 10 \<Longrightarrow>
   distinct (locationHistory (start_sessions pf st ds))
   \<and> length (locationHistory (start_sessions pf st ds)) \<le> 10
   \<and> set (locationHistory (start_sessions pf st ds))
       \<subseteq> set (locationHistory st) \<union> n_name ` snd ` set ds
   \<and> (n_name d \<noteq> [] \<and> n_name d \<notin> set (locationHistory st') \<longrightarrow>
        locationHistory (handleStartSession pf e d st') = take 10 (n_name d # locationHistory st')
        \<and> hd (locationHistory (handleStartSession pf e d st')) = n_name d)
   \<and> (n_name d = [] \<or> n_name d \<in> set (locationHistory st') \<longrightarrow>
        locationHistory (handleStartSession pf e d st') = locationHistory st')"
proof -
  assume "distinct (locationHistory st)" and "length (locationHistory st) \<le> 10"
  from start_sessions_history_inv [OF this]
  have inv: "distinct (locationHistory (start_sessions pf st ds))
   \<and> length (locationHistory (start_sessions pf st ds)) \<le> 10
   \<and> set (locationHistory (start_sessions pf st ds))
       \<subseteq> set (locationHistory st) \<union> n_name ` snd ` set ds" .
  have new: "n_name d \<noteq> [] \<and> n_name d \<notin> set (locationHistory st') \<longrightarrow>
        locationHistory (handleStartSession pf e d st') = take 10 (n_name d # locationHistory st')
        \<and> hd (locationHistory (handleStartSession pf e d st')) = n_name d"
    by (simp add: handleStartSession_history)
  have old: "n_name d = [] \<or> n_name d \<in> set (locationHistory st') \<longrightarrow>
        locationHistory (handleStartSession pf e d st') = locationHistory st'"
    by (auto simp: handleStartSession_history)
  from inv new old show ?thesis by blast
qed

theorem locationHistory_invariant_witness:
  "distinct (locationHistory initial_state) \<and> length (locationHistory initial_state) \<le> 10
   \<and> distinct (locationHistory (start_sessions (\<lambda>s. 0) initial_state
        [(sample_env 1 [], sample_form ''Marsh''), (sample_env 2 [], sample_form ''Dunes'')]))
   \<and> locationHistory (start_sessions (\<lambda>s. 0) initial_state
        [(sample_env 1 [], sample_form ''Marsh''), (sample_env 2 [], sample_form ''Dunes'')])
       = [''Dunes'', ''Marsh'']
   \<and> (n_name (sample_form ''Marsh'') \<noteq> []
        \<and> n_name (sample_form ''Marsh'') \<notin> set (locationHistory initial_state))
   \<and> hd (locationHistory (handleStartSession (\<lambda>s. 0) (sample_env 1 []) (sample_form ''Marsh'')
        initial_state)) = ''Marsh''"
proof -
  have d: "distinct (locationHistory initial_state)" and l: "length (locationHistory initial_state) \<le> 10"
    by (simp_all add: initial_state_def)
  note main = locationHistory_invariant [OF d l, of "\<lambda>s. 0"
      "[(sample_env 1 [], sample_form ''Marsh''), (sample_env 2 [], sample_form ''Dunes'')]"
      "sample_form ''Marsh''" initial_state "sample_env 1 []"]
  have fresh: "n_name (sample_form ''Marsh'') \<noteq> []
        \<and> n_name (sample_form ''Marsh'') \<notin> set (locationHistory initial_state)"
    by (simp add: sample_form_def initial_state_def)
  have dist: "distinct (locationHistory (start_sessions (\<lambda>s. 0) initial_state
        [(sample_env 1 [], sample_form ''Marsh''), (sample_env 2 [], sample_form ''Dunes'')]))"
    by (rule main [THEN conjunct1])
  have val: "locationHistory (start_sessions (\<lambda>s. 0) initial_state
        [(sample_env 1 [], sample_form ''Marsh''), (sample_env 2 [], sample_form ''Dunes'')])
       = [''Dunes'', ''Marsh'']"
    by (simp add: handleStartSession_history sample_form_def initial_state_def)
  have "hd (locationHistory (handleStartSession (\<lambda>s. 0) (sample_env 1 []) (sample_form ''Marsh'')
        initial_state)) = n_name (sample_form ''Marsh'')"
    by (rule mp [OF main [THEN conjunct2, THEN conjunct2, THEN conjunct2, THEN conjunct1] fresh,
          THEN conjunct2])
  then have first: "hd (locationHistory (handleStartSession (\<lambda>s. 0) (sample_env 1 []) (sample_form ''Marsh'')
        initial_state)) = ''Marsh''"
    by (simp add: sample_form_def)
  show ?thesis
    by (intro conjI d l dist val first) (use fresh in simp_all)
qed

theorem locationHistory_reused_name_not_first:
  "locationHistory (start_sessions (\<lambda>s. 0) initial_state
        [(sample_env 1 [], sample_form ''Marsh''), (sample_env 2 [], sample_form ''Dunes''),
         (sample_env 3 [], sample_form ''Marsh'')])
       = [''Dunes'', ''Marsh'']
   \<and> n_name (snd (last [(sample_env 1 [], sample_form ''Marsh''), (sample_env 2 [], sample_form ''Dunes''),
         (sample_env 3 [], sample_form ''Marsh'')])) = ''Marsh''
   \<and> hd (locationHistory (start_sessions (\<lambda>s. 0) initial_state
        [(sample_env 1 [], sample_form ''Marsh''), (sample_env 2 [], sample_form ''Dunes''),
         (sample_env 3 [], sample_form ''Marsh'')])) \<noteq> ''Marsh''"
  by (simp add: handleStartSession_history sample_form_def initial_state_def)

section \<open>Import of a session file\<close>

lemma map_of_obj_set:
  "map_of (obj_set ps k v) k' = (if k' = k then Some v else map_of ps k')"
  by (induction ps k v rule: obj_set.induct) auto







section \<open>Sorting with a comparator\<close>

lemma mset_insert_by: "mset (insert_by cmp x ys) = add_mset x (mset ys)"
  by (induction ys) simp_all

lemma mset_js_sort: "mset (js_sort cmp xs) = mset xs"
  by (induction xs) (simp_all add: mset_insert_by)

lemma set_js_sort: "set (js_sort cmp xs) = set xs"
  using mset_js_sort [of cmp xs] by (rule mset_eq_setD)

lemma length_js_sort: "length (js_sort cmp xs) = length xs"
  using mset_js_sort [of cmp xs] by (rule mset_eq_length)

lemma set_insert_by: "set (insert_by cmp x ys) = insert x (set ys)"
  by (induction ys) auto

lemma total_on_subset: "total_on_set cmp A \<Longrightarrow> B \<subseteq> A \<Longrightarrow> total_on_set cmp B"
  unfolding total_on_set_def by blast

lemma trans_on_subset: "trans_on_set cmp A \<Longrightarrow> B \<subseteq> A \<Longrightarrow> trans_on_set cmp B"
  unfolding trans_on_set_def by blast

lemma sorted_insert_by:
  "total_on_set cmp (insert x (set ys)) \<Longrightarrow> trans_on_set cmp (insert x (set ys)) \<Longrightarrow>
   sorted_wrt (\<lambda>a b. cmp a b \<le> 0) ys \<Longrightarrow>
   sorted_wrt (\<lambda>a b. cmp a b \<le> 0) (insert_by cmp x ys)"
proof (induction ys)
  case Nil
  then show ?case by simp
next
  case (Cons y ys)
  from Cons.prems(3) have tail: "sorted_wrt (\<lambda>a b. cmp a b \<le> 0) ys"
    and head: "\<forall>z \<in> set ys. cmp y z \<le> 0"
    by simp_all
  show ?case
  proof (cases "cmp x y \<le> 0")
    case True
    have "\<forall>z \<in> set ys. cmp x z \<le> 0"
    proof
      fix z assume z: "z \<in> set ys"
      with head have "cmp y z \<le> 0" by blast
      with True z Cons.prems(2) show "cmp x z \<le> 0"
        unfolding trans_on_set_def by (meson insertI1 insertI2 list.set_intros)
    qed
    with True Cons.prems(3) show ?thesis by simp
  next
    case False
    with Cons.prems(1) have yx: "cmp y x \<le> 0"
      unfolding total_on_set_def by (meson insertI1 insertI2 list.set_intros(1))
    have sub: "insert x (set ys) \<subseteq> insert x (set (y # ys))" by auto
    have rest: "sorted_wrt (\<lambda>a b. cmp a b \<le> 0) (insert_by cmp x ys)"
      by (rule Cons.IH [OF total_on_subset [OF Cons.prems(1) sub]
            trans_on_subset [OF Cons.prems(2) sub] tail])
    have "\<forall>z \<in> set (insert_by cmp x ys). cmp y z \<le> 0"
      using yx head by (simp add: set_insert_by)
    with False rest show ?thesis by simp
  qed
qed

text \<open>The sort orders its input when the comparator is consistent on its elements.\<close>

lemma sorted_js_sort:
  "total_on_set cmp (set xs) \<Longrightarrow> trans_on_set cmp (set xs) \<Longrightarrow>
   sorted_wrt (\<lambda>a b. cmp a b \<le> 0) (js_sort cmp xs)"
proof (induction xs)
  case Nil
  then show ?case by simp
next
  case (Cons x xs)
  have sub: "set xs \<subseteq> set (x # xs)" by auto
  have ih: "sorted_wrt (\<lambda>a b. cmp a b \<le> 0) (js_sort cmp xs)"
    by (rule Cons.IH [OF total_on_subset [OF Cons.prems(1) sub] trans_on_subset [OF Cons.prems(2) sub]])
  have eq: "insert x (set (js_sort cmp xs)) = set (x # xs)"
    by (simp add: set_js_sort)
  have "sorted_wrt (\<lambda>a b. cmp a b \<le> 0) (insert_by cmp x (js_sort cmp xs))"
    by (rule sorted_insert_by) (simp_all only: eq Cons.prems ih)
  then show ?case by simp
qed

section \<open>The report\<close>

lemma keys_obj_set:
  "map fst (obj_set obj k v) = (if k \<in> fst ` set obj then map fst obj else map fst obj @ [k])"
  by (induction obj k v rule: obj_set.induct) (auto simp: image_iff)

lemma distinct_obj_set:
  "distinct (map fst obj) \<Longrightarrow> distinct (map fst (obj_set obj k v))"
  by (simp add: keys_obj_set)

lemma keyset_obj_set: "fst ` set (obj_set obj k v) = insert k (fst ` set obj)"
proof -
  have "set (map fst (obj_set obj k v)) = insert k (set (map fst obj))"
    unfolding keys_obj_set by auto
  then show ?thesis by simp
qed

lemma speciesCounts_foldl: "speciesCounts xs = foldl count_step [] xs"
  unfolding speciesCounts_def count_step_def ..

lemma foldl_count_step_distinct:
  "distinct (map fst obj) \<Longrightarrow> distinct (map fst (foldl count_step obj xs))"
  by (induction xs arbitrary: obj) (simp_all add: count_step_def distinct_obj_set)

lemma foldl_count_step_keys:
  "fst ` set (foldl count_step obj xs) = fst ` set obj \<union> sg_speciesId ` set xs"
  by (induction xs arbitrary: obj) (auto simp: count_step_def keyset_obj_set)

lemma foldl_count_step_value:
  "map_of (foldl count_step obj xs) k
     = (if k \<in> sg_speciesId ` set xs
        then Some ((case map_of obj k of None \<Rightarrow> 0 | Some c \<Rightarrow> c) + count_sum k xs)
        else map_of obj k)"
proof (induction xs arbitrary: obj)
  case Nil
  then show ?case by simp
next
  case (Cons x xs)
  have step: "map_of (count_step obj x) k
      = (if k = sg_speciesId x
         then Some ((case map_of obj k of None \<Rightarrow> 0 | Some c \<Rightarrow> c) + sg_count x)
         else map_of obj k)"
    by (simp add: count_step_def map_of_obj_set obj_get_def)
  have sum: "count_sum k (x # xs) = (if sg_speciesId x = k then sg_count x else 0) + count_sum k xs"
    by (simp add: count_sum_def)
  have absent: "count_sum k xs = 0" if "k \<notin> sg_speciesId ` set xs"
  proof -
    from that have "filter (\<lambda>s. sg_speciesId s = k) xs = []"
      by (auto simp: filter_empty_conv)
    then show ?thesis by (simp add: count_sum_def)
  qed
  show ?case
    unfolding foldl_Cons Cons.IH step sum using absent
    by (auto split: option.splits)
qed

lemma speciesCounts_distinct: "distinct (map fst (speciesCounts xs))"
  unfolding speciesCounts_foldl by (rule foldl_count_step_distinct) simp

lemma speciesCounts_keys: "fst ` set (speciesCounts xs) = sg_speciesId ` set xs"
  unfolding speciesCounts_foldl by (simp add: foldl_count_step_keys)

lemma speciesCounts_value:
  "(k, c) \<in> set (speciesCounts xs) \<Longrightarrow> c = count_sum k xs"
proof -
  assume mem: "(k, c) \<in> set (speciesCounts xs)"
  with speciesCounts_distinct have "map_of (speciesCounts xs) k = Some c"
    by (rule map_of_is_SomeI)
  moreover from mem have "k \<in> sg_speciesId ` set xs"
    unfolding speciesCounts_keys [symmetric] by (rule rev_image_eqI) simp
  ultimately show ?thesis
    unfolding speciesCounts_foldl foldl_count_step_value by simp
qed

lemma mset_Object_entries: "mset (Object_entries obj) = mset obj"
  unfolding Object_entries_def by (simp add: multiset_partition [symmetric])

lemma mset_report_entries: "mset (report_entries xs) = mset (speciesCounts xs)"
  by (simp add: report_entries_def mset_js_sort mset_Object_entries)

lemma set_report_entries: "set (report_entries xs) = set (speciesCounts xs)"
  using mset_report_entries [of xs] by (rule mset_eq_setD)

lemma distinct_report_entries: "distinct (map fst (report_entries xs))"
proof -
  have "mset (map fst (report_entries xs)) = mset (map fst (speciesCounts xs))"
    by (simp add: mset_report_entries)
  from mset_eq_imp_distinct_iff [OF this] show ?thesis
    using speciesCounts_distinct [of xs] by blast
qed

lemma keys_report_entries: "set (map fst (report_entries xs)) = sg_speciesId ` set xs"
  by (simp add: set_report_entries speciesCounts_keys)

lemma length_report_entries:
  "length (report_entries xs) = length (remdups (map sg_speciesId xs))"
proof -
  have "length (report_entries xs) = card (set (map fst (report_entries xs)))"
    using distinct_card [OF distinct_report_entries [of xs]] by simp
  also have "\<dots> = card (set (map sg_speciesId xs))"
    unfolding keys_report_entries by simp
  also have "\<dots> = length (remdups (map sg_speciesId xs))"
    by (rule card_set)
  finally show ?thesis .
qed

lemma sorted_report_entries:
  "sorted_wrt (\<lambda>a b. snd b \<le> snd a) (report_entries xs)"
proof -
  let ?cmp = "\<lambda>(ka :: string, a :: int) (kb :: string, b :: int). b - a"
  have "sorted_wrt (\<lambda>a b. ?cmp a b \<le> 0) (js_sort ?cmp (Object_entries (speciesCounts xs)))"
    by (rule sorted_js_sort) (auto simp: total_on_set_def trans_on_set_def)
  moreover have "(\<lambda>a b. ?cmp a b \<le> 0) = (\<lambda>a b. snd b \<le> snd a)"
    by (auto simp: fun_eq_iff)
  ultimately show ?thesis
    by (simp add: report_entries_def)
qed

lemma sortedSpecies_entries:
  "sortedSpecies (renderReportUI session speciesList)
     = map (\<lambda>(i, c). \<lparr> bi_name = species_label speciesList i, bi_count = c, bi_id = i \<rparr>)
           (report_entries (se_sightings session))"
  by (simp add: renderReportUI_def report_entries_def)

lemma species_label_unknown:
  "i \<notin> sp_id ` set speciesList \<Longrightarrow> species_label speciesList i = ''Unknown''"
proof -
  assume "i \<notin> sp_id ` set speciesList"
  then have "find (\<lambda>s. sp_id s = i) speciesList = None"
    by (auto simp: find_None_iff)
  then show ?thesis by (simp add: species_label_def)
qed

lemma insert_by_insort_key:
  "insert_by (\<lambda>(ka, a) (kb, b). b - a) x ys = insort_key (\<lambda>(k, c :: int). - c) x ys"
  by (induction ys) (auto simp: case_prod_beta)

lemma js_sort_sort_key:
  "js_sort (\<lambda>(ka, a) (kb, b). b - a) xs = sort_key (\<lambda>(k, c :: int). - c) xs"
  by (induction xs) (simp_all add: insert_by_insort_key sort_key_def)

lemma report_entries_sort_key:
  "report_entries xs = sort_key (\<lambda>(k, c). - c) (Object_entries (speciesCounts xs))"
  by (simp add: report_entries_def js_sort_sort_key)

lemma report_entries_ties:
  "filter (\<lambda>p. snd p = c) (report_entries xs)
     = filter (\<lambda>p. snd p = c) (Object_entries (speciesCounts xs))"
proof -
  have "(\<lambda>p :: string \<times> int. snd p = c) = (\<lambda>p. (case p of (k, v) \<Rightarrow> - v) = - c)"
    by (auto simp: fun_eq_iff)
  then show ?thesis
    unfolding report_entries_sort_key by (simp only: sort_key_stable)
qed

lemma keys_count_step:
  "map fst (count_step obj x)
     = (if sg_speciesId x \<in> set (map fst obj) then map fst obj else map fst obj @ [sg_speciesId x])"
  by (simp add: count_step_def keys_obj_set)

lemma speciesCounts_creation_order:
  "map fst (speciesCounts xs) = rev (remdups (rev (map sg_speciesId xs)))"
proof (induction xs rule: rev_induct)
  case Nil
  then show ?case by (simp add: speciesCounts_foldl)
next
  case (snoc x xs)
  have "set (map fst (speciesCounts xs)) = sg_speciesId ` set xs"
    using speciesCounts_keys [of xs] by simp
  with snoc show ?case
    by (simp add: speciesCounts_foldl keys_count_step)
qed

text \<open>
  C3. For a session whose species ids are none of the names of
  \<^verbatim>\<open>Object.prototype\<close>, the report has \<^verbatim>\<open>totalBirds\<close> the sum of all counts,
  \<^verbatim>\<open>uniqueSpecies\<close> the number of distinct species ids, and a breakdown with exactly
  one entry for each species id present, carrying the total of that species and
  its name in the catalogue, or the label \<^verbatim>\<open>Unknown\<close> when the catalogue does not
  have the id. The breakdown is in descending order of the totals; it is the
  stable sort by total of the entries of the grouping object, so the entries of
  one total come in the order in which \<^verbatim>\<open>Object.entries\<close> lists them, whatever
  their names. The grouping object has the species ids in the order of their
  first sightings.
\<close>

theorem renderReportUI_summary:
  "\<forall>x \<in> set (se_sightings session). sg_speciesId x \<notin> set object_prototype_keys \<Longrightarrow>
   totalBirds (renderReportUI session speciesList) = sum_list (map sg_count (se_sightings session))
   \<and> uniqueSpecies (renderReportUI session speciesList)
       = card (sg_speciesId ` set (se_sightings session))
   \<and> length (sortedSpecies (renderReportUI session speciesList))
       = uniqueSpecies (renderReportUI session speciesList)
   \<and> distinct (map bi_id (sortedSpecies (renderReportUI session speciesList)))
   \<and> set (map bi_id (sortedSpecies (renderReportUI session speciesList)))
       = sg_speciesId ` set (se_sightings session)
   \<and> (\<forall>b \<in> set (sortedSpecies (renderReportUI session speciesList)).
         bi_count b = getCountForSpecies session (bi_id b)
         \<and> bi_name b = species_label speciesList (bi_id b))
   \<and> sorted_wrt (\<lambda>a b. bi_count b \<le> bi_count a) (sortedSpecies (renderReportUI session speciesList))
   \<and> sortedSpecies (renderReportUI session speciesList)
       = map (\<lambda>(i, c). \<lparr> bi_name = species_label speciesList i, bi_count = c, bi_id = i \<rparr>)
             (sort_key (\<lambda>(k, c). - c) (Object_entries (speciesCounts (se_sightings session))))
   \<and> (\<forall>c. map bi_id (filter (\<lambda>b. bi_count b = c) (sortedSpecies (renderReportUI session speciesList)))
            = map fst (filter (\<lambda>p. snd p = c) (Object_entries (speciesCounts (se_sightings session)))))
   \<and> map fst (speciesCounts (se_sightings session))
       = rev (remdups (rev (map sg_speciesId (se_sightings session))))
   \<and> (i \<notin> sp_id ` set speciesList \<longrightarrow> species_label speciesList i = ''Unknown'')
   \<and> (find (\<lambda>s. sp_id s = i) speciesList = Some sp \<and> sp_name sp \<noteq> [] \<longrightarrow>
        species_label speciesList i = sp_name sp)"
proof -
  let ?xs = "se_sightings session"
  let ?mk = "\<lambda>(i, c). \<lparr> bi_name = species_label speciesList i, bi_count = c, bi_id = i \<rparr>"
  have ids: "map bi_id (map ?mk (report_entries ?xs)) = map fst (report_entries ?xs)"
    by (simp add: case_prod_beta)
  have total: "totalBirds (renderReportUI session speciesList) = sum_list (map sg_count ?xs)"
    by (simp add: renderReportUI_def foldl_count_acc)
  have uniq: "uniqueSpecies (renderReportUI session speciesList) = card (sg_speciesId ` set ?xs)"
    using card_set [of "map sg_speciesId ?xs"] by (simp add: renderReportUI_def)
  have len: "length (sortedSpecies (renderReportUI session speciesList))
       = uniqueSpecies (renderReportUI session speciesList)"
    unfolding sortedSpecies_entries by (simp add: length_report_entries renderReportUI_def)
  have dist: "distinct (map bi_id (sortedSpecies (renderReportUI session speciesList)))"
    unfolding sortedSpecies_entries ids by (rule distinct_report_entries)
  have keys: "set (map bi_id (sortedSpecies (renderReportUI session speciesList)))
       = sg_speciesId ` set ?xs"
    unfolding sortedSpecies_entries ids by (rule keys_report_entries)
  have each: "\<forall>b \<in> set (sortedSpecies (renderReportUI session speciesList)).
         bi_count b = getCountForSpecies session (bi_id b)
         \<and> bi_name b = species_label speciesList (bi_id b)"
  proof
    fix b
    assume "b \<in> set (sortedSpecies (renderReportUI session speciesList))"
    then obtain k c where kc: "(k, c) \<in> set (report_entries ?xs)" and b: "b = ?mk (k, c)"
      unfolding sortedSpecies_entries by auto
    from kc have "c = count_sum k ?xs"
      unfolding set_report_entries by (rule speciesCounts_value)
    with b show "bi_count b = getCountForSpecies session (bi_id b)
         \<and> bi_name b = species_label speciesList (bi_id b)"
      by (simp add: getCountForSpecies_sum)
  qed
  have sorted: "sorted_wrt (\<lambda>a b. bi_count b \<le> bi_count a)
      (sortedSpecies (renderReportUI session speciesList))"
    unfolding sortedSpecies_entries
    using sorted_report_entries [of ?xs] by (simp add: sorted_wrt_map case_prod_beta)
  have stable: "sortedSpecies (renderReportUI session speciesList)
       = map ?mk (sort_key (\<lambda>(k, c). - c) (Object_entries (speciesCounts ?xs)))"
    unfolding sortedSpecies_entries report_entries_sort_key ..
  have ties: "\<forall>c. map bi_id (filter (\<lambda>b. bi_count b = c) (sortedSpecies (renderReportUI session speciesList)))
            = map fst (filter (\<lambda>p. snd p = c) (Object_entries (speciesCounts ?xs)))"
  proof
    fix c
    have "filter (\<lambda>b. bi_count b = c) (map ?mk (report_entries ?xs))
        = map ?mk (filter (\<lambda>p. snd p = c) (report_entries ?xs))"
      by (simp add: filter_map comp_def case_prod_beta)
    then show "map bi_id (filter (\<lambda>b. bi_count b = c) (sortedSpecies (renderReportUI session speciesList)))
            = map fst (filter (\<lambda>p. snd p = c) (Object_entries (speciesCounts ?xs)))"
      unfolding sortedSpecies_entries by (simp add: report_entries_ties case_prod_beta)
  qed
  have creation: "map fst (speciesCounts ?xs) = rev (remdups (rev (map sg_speciesId ?xs)))"
    by (rule speciesCounts_creation_order)
  have unknown: "i \<notin> sp_id ` set speciesList \<longrightarrow> species_label speciesList i = ''Unknown''"
    using species_label_unknown by blast
  have known: "find (\<lambda>s. sp_id s = i) speciesList = Some sp \<and> sp_name sp \<noteq> [] \<longrightarrow>
        species_label speciesList i = sp_name sp"
    by (simp add: species_label_def)
  from total uniq len dist keys each sorted stable ties creation unknown known show ?thesis
    by (intro conjI)
qed

lemma sample_report_value:
  "renderReportUI sample_report_session [sample_species ''x'' ''Robin'']
     = \<lparr> totalBirds = 10, uniqueSpecies = 2,
         sortedSpecies = [\<lparr> bi_name = ''Robin'', bi_count = 5, bi_id = ''x'' \<rparr>,
                          \<lparr> bi_name = ''Unknown'', bi_count = 5, bi_id = ''y'' \<rparr>] \<rparr>"
  by (simp add: renderReportUI_def sample_report_session_def sample_session_def sample_sighting_def
        sample_species_def speciesCounts_def obj_get_def Object_entries_def is_array_index_def
        is_digit_def digits_value_def species_label_def)

theorem renderReportUI_summary_witness:
  "list_all (\<lambda>x. sg_speciesId x \<notin> set object_prototype_keys) (se_sightings sample_report_session)
   \<and> \<lparr> bi_name = ''Unknown'', bi_count = 5, bi_id = ''y'' \<rparr>
      \<in> set (sortedSpecies (renderReportUI sample_report_session [sample_species ''x'' ''Robin'']))
   \<and> bi_count \<lparr> bi_name = ''Unknown'', bi_count = 5, bi_id = ''y'' \<rparr>
       = getCountForSpecies sample_report_session ''y''
   \<and> ''y'' \<notin> sp_id ` set [sample_species ''x'' ''Robin'']
   \<and> species_label [sample_species ''x'' ''Robin''] ''y'' = ''Unknown''
   \<and> (find (\<lambda>s. sp_id s = ''x'') [sample_species ''x'' ''Robin''] = Some (sample_species ''x'' ''Robin'')
        \<and> sp_name (sample_species ''x'' ''Robin'') \<noteq> [])
   \<and> species_label [sample_species ''x'' ''Robin''] ''x'' = ''Robin''
   \<and> totalBirds (renderReportUI sample_report_session [sample_species ''x'' ''Robin'']) = 10
   \<and> uniqueSpecies (renderReportUI sample_report_session [sample_species ''x'' ''Robin'']) = 2
   \<and> length (sortedSpecies (renderReportUI sample_report_session [sample_species ''x'' ''Robin''])) = 2
   \<and> map bi_id (filter (\<lambda>b. bi_count b = 5)
         (sortedSpecies (renderReportUI sample_report_session [sample_species ''x'' ''Robin''])))
       = [''x'', ''y'']"
proof -
  let ?cat = "[sample_species ''x'' ''Robin'']"
  let ?y = "\<lparr> bi_name = ''Unknown'', bi_count = 5, bi_id = ''y'' \<rparr>"
  have plain: "\<forall>x \<in> set (se_sightings sample_report_session). sg_speciesId x \<notin> set object_prototype_keys"
    by (simp add: sample_report_session_def sample_sighting_def object_prototype_keys_def)
  then have plain': "list_all (\<lambda>x. sg_speciesId x \<notin> set object_prototype_keys)
      (se_sightings sample_report_session)"
    by (simp add: list_all_iff)
  note main = renderReportUI_summary [OF plain, of ?cat "''y''" "sample_species ''x'' ''Robin''"]
  note main' = renderReportUI_summary [OF plain, of ?cat "''x''" "sample_species ''x'' ''Robin''"]
  have mem: "?y \<in> set (sortedSpecies (renderReportUI sample_report_session ?cat))"
    by (simp add: sample_report_value)
  from main have "\<forall>b \<in> set (sortedSpecies (renderReportUI sample_report_session ?cat)).
         bi_count b = getCountForSpecies sample_report_session (bi_id b)
         \<and> bi_name b = species_label ?cat (bi_id b)"
    by (elim conjE)
  from bspec [OF this mem] have cnt: "bi_count ?y = getCountForSpecies sample_report_session ''y''"
    by simp
  have absent: "''y'' \<notin> sp_id ` set ?cat"
    by (simp add: sample_species_def)
  from main have "''y'' \<notin> sp_id ` set ?cat \<longrightarrow> species_label ?cat ''y'' = ''Unknown''"
    by (elim conjE)
  with absent have unknown: "species_label ?cat ''y'' = ''Unknown''"
    by (rule rev_mp)
  have found: "find (\<lambda>s. sp_id s = ''x'') ?cat = Some (sample_species ''x'' ''Robin'')
        \<and> sp_name (sample_species ''x'' ''Robin'') \<noteq> []"
    by (simp add: sample_species_def)
  from main' have "find (\<lambda>s. sp_id s = ''x'') ?cat = Some (sample_species ''x'' ''Robin'')
        \<and> sp_name (sample_species ''x'' ''Robin'') \<noteq> [] \<longrightarrow>
        species_label ?cat ''x'' = sp_name (sample_species ''x'' ''Robin'')"
    by (elim conjE)
  with found have "species_label ?cat ''x'' = sp_name (sample_species ''x'' ''Robin'')"
    by (rule rev_mp)
  then have known: "species_label ?cat ''x'' = ''Robin''"
    by (simp add: sample_species_def)
  have vals: "totalBirds (renderReportUI sample_report_session ?cat) = 10"
    "uniqueSpecies (renderReportUI sample_report_session ?cat) = 2"
    "length (sortedSpecies (renderReportUI sample_report_session ?cat)) = 2"
    by (simp_all add: sample_report_value)
  from main have "\<forall>c. map bi_id (filter (\<lambda>b. bi_count b = c)
          (sortedSpecies (renderReportUI sample_report_session ?cat)))
        = map fst (filter (\<lambda>p. snd p = c)
            (Object_entries (speciesCounts (se_sightings sample_report_session))))"
    by (elim conjE)
  then have "map bi_id (filter (\<lambda>b. bi_count b = 5)
          (sortedSpecies (renderReportUI sample_report_session ?cat)))
        = map fst (filter (\<lambda>p. snd p = 5)
            (Object_entries (speciesCounts (se_sightings sample_report_session))))"
    by (rule spec)
  also have "\<dots> = [''x'', ''y'']"
    by (simp add: sample_report_session_def sample_session_def sample_sighting_def
          speciesCounts_def obj_get_def Object_entries_def is_array_index_def
          is_digit_def digits_value_def)
  finally have tie: "map bi_id (filter (\<lambda>b. bi_count b = 5)
          (sortedSpecies (renderReportUI sample_report_session ?cat))) = [''x'', ''y'']" .
  from plain' mem cnt absent unknown found known vals tie show ?thesis
    by blast
qed

theorem renderReportUI_tie_not_by_name:
  "sortedSpecies (renderReportUI sample_tie_session
       [sample_species ''1'' ''Wren'', sample_species ''2'' ''Crow''])
     = [\<lparr> bi_name = ''Wren'', bi_count = 5, bi_id = ''1'' \<rparr>,
        \<lparr> bi_name = ''Crow'', bi_count = 5, bi_id = ''2'' \<rparr>]
   \<and> (of_char (hd ''Crow'') :: nat) < of_char (hd ''Wren'')"
  by (simp add: renderReportUI_def sample_tie_session_def sample_session_def sample_sighting_def
        sample_species_def speciesCounts_def obj_get_def Object_entries_def is_array_index_def
        is_digit_def digits_value_def species_label_def)

section \<open>The species grid\<close>

lemma compare_units_flip: "compare_units b a = - compare_units a b"
  by (induction a b rule: compare_units.induct) auto

lemma compare_units_total: "total_on_set compare_units UNIV"
  unfolding total_on_set_def using compare_units_flip by (metis UNIV_I linear neg_le_0_iff_le)

lemma compare_units_trans_le:
  "compare_units a b \<le> 0 \<Longrightarrow> compare_units b c \<le> 0 \<Longrightarrow> compare_units a c \<le> 0"
proof (induction a arbitrary: b c)
  case Nil
  then show ?case by (cases c) simp_all
next
  case (Cons x xs)
  from Cons.prems(1) obtain y ys where b: "b = y # ys"
    by (cases b) simp_all
  from Cons.prems(2) b obtain z zs where c: "c = z # zs"
    by (cases c) simp_all
  from Cons.prems b c Cons.IH [of ys zs] show ?case
    by (auto split: if_splits)
qed

lemma compare_units_trans: "trans_on_set compare_units UNIV"
  unfolding trans_on_set_def using compare_units_trans_le by blast

lemma species_compare_le:
  assumes "0 \<le> getCountForSpecies session (sp_id a)" and "0 \<le> getCountForSpecies session (sp_id b)"
  shows "(species_compare lc session a b \<le> 0)
     = ((0 < getCountForSpecies session (sp_id a) \<and> getCountForSpecies session (sp_id b) = 0)
        \<or> ((0 < getCountForSpecies session (sp_id a)) = (0 < getCountForSpecies session (sp_id b))
            \<and> lc (sp_name a) (sp_name b) \<le> 0))"
  using assms by (auto simp: species_compare_def Let_def)

lemma species_compare_total:
  assumes "total_on_set lc UNIV" and "\<forall>s \<in> A. 0 \<le> getCountForSpecies session (sp_id s)"
  shows "total_on_set (species_compare lc session) A"
  unfolding total_on_set_def
proof (intro ballI)
  fix a b assume "a \<in> A" "b \<in> A"
  with assms(2) have a: "0 \<le> getCountForSpecies session (sp_id a)"
    and b: "0 \<le> getCountForSpecies session (sp_id b)" by simp_all
  from assms(1) have "lc (sp_name a) (sp_name b) \<le> 0 \<or> lc (sp_name b) (sp_name a) \<le> 0"
    unfolding total_on_set_def by blast
  with a b show "species_compare lc session a b \<le> 0 \<or> species_compare lc session b a \<le> 0"
    unfolding species_compare_le [OF a b] species_compare_le [OF b a] by auto
qed

lemma species_compare_trans:
  assumes "trans_on_set lc UNIV" and "\<forall>s \<in> A. 0 \<le> getCountForSpecies session (sp_id s)"
  shows "trans_on_set (species_compare lc session) A"
  unfolding trans_on_set_def
proof (intro ballI impI)
  fix a b c assume "a \<in> A" "b \<in> A" "c \<in> A"
  with assms(2) have a: "0 \<le> getCountForSpecies session (sp_id a)"
    and b: "0 \<le> getCountForSpecies session (sp_id b)"
    and c: "0 \<le> getCountForSpecies session (sp_id c)" by simp_all
  assume "species_compare lc session a b \<le> 0" and "species_compare lc session b c \<le> 0"
  then have ab: "(0 < getCountForSpecies session (sp_id a) \<and> getCountForSpecies session (sp_id b) = 0)
        \<or> ((0 < getCountForSpecies session (sp_id a)) = (0 < getCountForSpecies session (sp_id b))
            \<and> lc (sp_name a) (sp_name b) \<le> 0)"
    and bc: "(0 < getCountForSpecies session (sp_id b) \<and> getCountForSpecies session (sp_id c) = 0)
        \<or> ((0 < getCountForSpecies session (sp_id b)) = (0 < getCountForSpecies session (sp_id c))
            \<and> lc (sp_name b) (sp_name c) \<le> 0)"
    unfolding species_compare_le [OF a b] species_compare_le [OF b c] by simp_all
  have tr: "lc (sp_name a) (sp_name b) \<le> 0 \<Longrightarrow> lc (sp_name b) (sp_name c) \<le> 0
      \<Longrightarrow> lc (sp_name a) (sp_name c) \<le> 0"
    using assms(1) unfolding trans_on_set_def by blast
  from ab bc tr a b c show "species_compare lc session a c \<le> 0"
    unfolding species_compare_le [OF a c] by auto
qed

lemma includes_str_empty [simp]: "includes_str s []"
  by (cases s) simp_all

lemma species_matches_empty: "lower [] = [] \<Longrightarrow> species_matches lower [] s"
  by (simp add: species_matches_def)

lemma filteredAndSortedSpecies_sort:
  "filteredAndSortedSpecies lower lc (Some catalogue) searchTerm session
     = js_sort (species_compare lc session) (filter (species_matches lower searchTerm) catalogue)"
  by (simp add: filteredAndSortedSpecies_def)

text \<open>
  C4. Let \<^verbatim>\<open>localeCompare\<close> be total and transitive, and let no species of the
  catalogue have a negative total in the session. Then the listing is a
  rearrangement of exactly the catalogue entries whose name, abbreviation or
  family contains the search term after lower-casing (of every entry when the term
  is empty); no species with a zero total comes before a species with a positive
  total; and two species that both have a positive total, or both a zero total,
  come in the order of \<^verbatim>\<open>localeCompare\<close> on their names. A missing catalogue gives
  the empty listing.
\<close>

theorem filteredAndSortedSpecies_listing:
  "total_on_set localeCompare UNIV \<Longrightarrow> trans_on_set localeCompare UNIV \<Longrightarrow>
   \<forall>s \<in> set catalogue. 0 \<le> getCountForSpecies session (sp_id s) \<Longrightarrow>
   mset (filteredAndSortedSpecies lower localeCompare (Some catalogue) searchTerm session)
     = mset (filter (species_matches lower searchTerm) catalogue)
   \<and> (lower [] = [] \<longrightarrow>
        mset (filteredAndSortedSpecies lower localeCompare (Some catalogue) [] session) = mset catalogue)
   \<and> (\<forall>i j. i < j \<and> j < length (filteredAndSortedSpecies lower localeCompare (Some catalogue) searchTerm session)
          \<and> 0 < getCountForSpecies session
                  (sp_id (filteredAndSortedSpecies lower localeCompare (Some catalogue) searchTerm session ! j))
        \<longrightarrow> 0 < getCountForSpecies session
                  (sp_id (filteredAndSortedSpecies lower localeCompare (Some catalogue) searchTerm session ! i)))
   \<and> (\<forall>i j. i < j \<and> j < length (filteredAndSortedSpecies lower localeCompare (Some catalogue) searchTerm session)
          \<and> (0 < getCountForSpecies session
                  (sp_id (filteredAndSortedSpecies lower localeCompare (Some catalogue) searchTerm session ! i)))
            = (0 < getCountForSpecies session
                  (sp_id (filteredAndSortedSpecies lower localeCompare (Some catalogue) searchTerm session ! j)))
        \<longrightarrow> localeCompare
              (sp_name (filteredAndSortedSpecies lower localeCompare (Some catalogue) searchTerm session ! i))
              (sp_name (filteredAndSortedSpecies lower localeCompare (Some catalogue) searchTerm session ! j))
            \<le> 0)
   \<and> filteredAndSortedSpecies lower localeCompare None searchTerm session = []"
proof -
  assume total: "total_on_set localeCompare UNIV" and trans: "trans_on_set localeCompare UNIV"
    and nonneg: "\<forall>s \<in> set catalogue. 0 \<le> getCountForSpecies session (sp_id s)"
  let ?F = "filter (species_matches lower searchTerm) catalogue"
  let ?R = "filteredAndSortedSpecies lower localeCompare (Some catalogue) searchTerm session"
  have R: "?R = js_sort (species_compare localeCompare session) ?F"
    by (rule filteredAndSortedSpecies_sort)
  have perm: "mset ?R = mset ?F"
    unfolding R by (rule mset_js_sort)
  have all: "lower [] = [] \<longrightarrow>
        mset (filteredAndSortedSpecies lower localeCompare (Some catalogue) [] session) = mset catalogue"
  proof
    assume "lower [] = []"
    then have "filter (species_matches lower []) catalogue = catalogue"
      by (simp add: species_matches_empty)
    then show "mset (filteredAndSortedSpecies lower localeCompare (Some catalogue) [] session) = mset catalogue"
      by (simp add: filteredAndSortedSpecies_sort mset_js_sort)
  qed
  from nonneg have nonnegF: "\<forall>s \<in> set ?F. 0 \<le> getCountForSpecies session (sp_id s)"
    by simp
  have "sorted_wrt (\<lambda>a b. species_compare localeCompare session a b \<le> 0) ?R"
    unfolding R
    by (rule sorted_js_sort [OF species_compare_total [OF total nonnegF]
          species_compare_trans [OF trans nonnegF]])
  then have ordered: "species_compare localeCompare session (?R ! i) (?R ! j) \<le> 0"
    if "i < j" "j < length ?R" for i j
    using that by (simp add: sorted_wrt_iff_nth_less)
  have nonnegR: "0 \<le> getCountForSpecies session (sp_id (?R ! i))" if "i < length ?R" for i
  proof -
    from that have "?R ! i \<in> set ?R" by (rule nth_mem)
    also have "set ?R = set ?F" using perm by (rule mset_eq_setD)
    finally show ?thesis using nonnegF by blast
  qed
  have pair: "(0 < getCountForSpecies session (sp_id (?R ! i)) \<and> getCountForSpecies session (sp_id (?R ! j)) = 0)
        \<or> ((0 < getCountForSpecies session (sp_id (?R ! i))) = (0 < getCountForSpecies session (sp_id (?R ! j)))
            \<and> localeCompare (sp_name (?R ! i)) (sp_name (?R ! j)) \<le> 0)"
    if "i < j" "j < length ?R" for i j
  proof -
    from that have "i < length ?R" by simp
    from nonnegR [OF this] nonnegR [OF that(2)] ordered [OF that] show ?thesis
      by (simp only: species_compare_le)
  qed
  have groups: "\<forall>i j. i < j \<and> j < length ?R \<and> 0 < getCountForSpecies session (sp_id (?R ! j))
        \<longrightarrow> 0 < getCountForSpecies session (sp_id (?R ! i))"
    using pair by fastforce
  have names: "\<forall>i j. i < j \<and> j < length ?R
          \<and> (0 < getCountForSpecies session (sp_id (?R ! i))) = (0 < getCountForSpecies session (sp_id (?R ! j)))
        \<longrightarrow> localeCompare (sp_name (?R ! i)) (sp_name (?R ! j)) \<le> 0"
    using pair by fastforce
  have none: "filteredAndSortedSpecies lower localeCompare None searchTerm session = []"
    by (simp add: filteredAndSortedSpecies_def)
  from perm all groups names none show ?thesis
    by (intro conjI)
qed

lemma sample_grid_value:
  "filteredAndSortedSpecies ascii_lower compare_units (Some sample_catalogue) [] sample_grid_session
     = [sample_species ''B'' ''Crow'', sample_species ''C'' ''Wren'', sample_species ''A'' ''Robin'']"
  by (simp add: filteredAndSortedSpecies_def species_matches_def ascii_lower_def sample_catalogue_def
        sample_species_def species_compare_def getCountForSpecies_def sample_grid_session_def
        sample_sighting_def Let_def)

theorem filteredAndSortedSpecies_listing_witness:
  "total_on_set compare_units UNIV \<and> trans_on_set compare_units UNIV
   \<and> list_all (\<lambda>s. 0 \<le> getCountForSpecies sample_grid_session (sp_id s)) sample_catalogue
   \<and> ascii_lower [] = []
   \<and> filteredAndSortedSpecies ascii_lower compare_units (Some sample_catalogue) [] sample_grid_session
       = [sample_species ''B'' ''Crow'', sample_species ''C'' ''Wren'', sample_species ''A'' ''Robin'']
   \<and> mset (filteredAndSortedSpecies ascii_lower compare_units (Some sample_catalogue) [] sample_grid_session)
       = mset sample_catalogue
   \<and> ((0::nat) < 1
       \<and> 1 < length (filteredAndSortedSpecies ascii_lower compare_units (Some sample_catalogue) []
                       sample_grid_session)
       \<and> 0 < getCountForSpecies sample_grid_session
               (sp_id (filteredAndSortedSpecies ascii_lower compare_units (Some sample_catalogue) []
                        sample_grid_session ! 1)))
   \<and> 0 < getCountForSpecies sample_grid_session
           (sp_id (filteredAndSortedSpecies ascii_lower compare_units (Some sample_catalogue) []
                    sample_grid_session ! 0))
   \<and> compare_units
         (sp_name (filteredAndSortedSpecies ascii_lower compare_units (Some sample_catalogue) []
                    sample_grid_session ! 0))
         (sp_name (filteredAndSortedSpecies ascii_lower compare_units (Some sample_catalogue) []
                    sample_grid_session ! 1)) \<le> 0"
proof -
  let ?R = "filteredAndSortedSpecies ascii_lower compare_units (Some sample_catalogue) [] sample_grid_session"
  have counts: "getCountForSpecies sample_grid_session ''A'' = 0"
    "getCountForSpecies sample_grid_session ''B'' = 1"
    "getCountForSpecies sample_grid_session ''C'' = 2"
    by (simp_all add: getCountForSpecies_def sample_grid_session_def sample_sighting_def)
  have nonneg: "\<forall>s \<in> set sample_catalogue. 0 \<le> getCountForSpecies sample_grid_session (sp_id s)"
    by (simp add: sample_catalogue_def sample_species_def counts)
  then have nonneg': "list_all (\<lambda>s. 0 \<le> getCountForSpecies sample_grid_session (sp_id s)) sample_catalogue"
    by (simp add: list_all_iff)
  have low: "ascii_lower [] = []"
    by (simp add: ascii_lower_def)
  note main = filteredAndSortedSpecies_listing [OF compare_units_total compare_units_trans nonneg,
      of ascii_lower "[]"]
  from main have "ascii_lower [] = [] \<longrightarrow> mset ?R = mset sample_catalogue"
    by (elim conjE)
  with low have perm: "mset ?R = mset sample_catalogue"
    by (rule rev_mp)
  have hyp: "(0::nat) < 1 \<and> 1 < length ?R \<and> 0 < getCountForSpecies sample_grid_session (sp_id (?R ! 1))"
    by (simp add: sample_grid_value sample_species_def counts)
  from main have "\<forall>i j. i < j \<and> j < length ?R \<and> 0 < getCountForSpecies sample_grid_session (sp_id (?R ! j))
        \<longrightarrow> 0 < getCountForSpecies sample_grid_session (sp_id (?R ! i))"
    by (elim conjE)
  with hyp have first: "0 < getCountForSpecies sample_grid_session (sp_id (?R ! 0))"
    by blast
  from main have "\<forall>i j. i < j \<and> j < length ?R
          \<and> (0 < getCountForSpecies sample_grid_session (sp_id (?R ! i)))
            = (0 < getCountForSpecies sample_grid_session (sp_id (?R ! j)))
        \<longrightarrow> compare_units (sp_name (?R ! i)) (sp_name (?R ! j)) \<le> 0"
    by (elim conjE)
  with hyp first have names: "compare_units (sp_name (?R ! 0)) (sp_name (?R ! 1)) \<le> 0"
    by blast
  show ?thesis
    by (intro conjI compare_units_total compare_units_trans nonneg' low sample_grid_value perm
          hyp [THEN conjunct1] hyp [THEN conjunct2, THEN conjunct1]
          hyp [THEN conjunct2, THEN conjunct2] first names)
qed

theorem filteredAndSortedSpecies_zero_before_negative:
  "filteredAndSortedSpecies ascii_lower compare_units
       (Some [sample_species ''1'' ''Crow'', sample_species ''2'' ''Robin'']) [] sample_negative_session
     = [sample_species ''1'' ''Crow'', sample_species ''2'' ''Robin'']
   \<and> getCountForSpecies sample_negative_session (sp_id (sample_species ''1'' ''Crow'')) = 0
   \<and> getCountForSpecies sample_negative_session (sp_id (sample_species ''2'' ''Robin'')) \<noteq> 0"
  by (simp add: filteredAndSortedSpecies_def species_matches_def ascii_lower_def
        sample_species_def species_compare_def getCountForSpecies_def sample_negative_session_def
        sample_sighting_def Let_def)

end
